theory Spec2Isabelle
  imports Complex_Main "HOL-Library.Word" "HOL-Library.AList"
begin

unbundle bit_operations_syntax

section \<open>Go's float64\<close>

text \<open>
  Both source files compute with \<^verbatim>\<open>float64\<close>. A value is a rational (every finite binary64
  number is one), an infinity or a NaN. Each arithmetic operation computes the exact
  rational result and rounds it to the nearest binary64 number, ties to even, as IEEE 754
  prescribes: 53 significant bits, least exponent \<open>-1074\<close> (subnormal numbers), overflow to an
  infinity from \<open>2 ^ 1024\<close> on. Negative zero is identified with zero: the two differ only
  as a divisor, and a zero divisor is taken to be positive. NaN payloads are not kept.
\<close>

datatype f64 = Finite rat | PosInf | NegInf | NaN

function bits_from :: "int \<Rightarrow> int \<Rightarrow> int" where
  "bits_from acc n = (if n \<le> 0 then acc else bits_from (acc + 1) (n div 2))"
  by pat_completeness auto
termination
  by (relation "measure (\<lambda>(acc, n). nat n)") auto

declare bits_from.simps [simp del]

text \<open>The number of binary digits of a positive integer.\<close>

definition bitlen :: "int \<Rightarrow> int" where
  "bitlen n = bits_from 0 n"

definition pow2 :: "int \<Rightarrow> rat" where
  "pow2 e = (if 0 \<le> e then 2 ^ nat e else 1 / 2 ^ nat (- e))"

text \<open>For \<open>0 < x\<close>, the exponent \<open>e\<close> with \<open>2 ^ e \<le> x < 2 ^ (e + 1)\<close>.\<close>

definition ilog2 :: "rat \<Rightarrow> int" where
  "ilog2 x = (if 1 \<le> x then bitlen \<lfloor>x\<rfloor> - 1 else - bitlen (\<lceil>1 / x\<rceil> - 1))"

definition ties_even :: "int \<Rightarrow> rat \<Rightarrow> int" where
  "ties_even f d =
     (if d < 1 / 2 then f else if 1 / 2 < d then f + 1 else if even f then f else f + 1)"

definition round_half_even :: "rat \<Rightarrow> int" where
  "round_half_even m = ties_even \<lfloor>m\<rfloor> (m - of_int \<lfloor>m\<rfloor>)"

text \<open>
  The significand \<open>n\<close> that rounding hands over has at most 54 digits, so that \<open>n * 2 ^ k\<close>
  stays below \<open>2 ^ 1024\<close> whenever \<open>k \<le> 970\<close>; above, the digits are counted.
\<close>

definition pack64 :: "bool \<Rightarrow> int \<Rightarrow> int \<Rightarrow> f64" where
  "pack64 pos k n =
     (if k \<le> 970 then Finite (of_int n * pow2 k)
      else if 1024 < bitlen \<bar>n\<bar> + k then (if pos then PosInf else NegInf)
      else Finite (of_int n * pow2 k))"

definition round_at :: "int \<Rightarrow> rat \<Rightarrow> f64" where
  "round_at k x = pack64 (0 < x) k (round_half_even (x / pow2 k))"

definition round64 :: "rat \<Rightarrow> f64" where
  "round64 x = (if x = 0 then Finite 0 else round_at (max (ilog2 \<bar>x\<bar> - 52) (- 1074)) x)"

definition inf_of_sign :: "bool \<Rightarrow> f64" where
  "inf_of_sign pos = (if pos then PosInf else NegInf)"

fun is_pos :: "f64 \<Rightarrow> bool" where
  "is_pos (Finite a) = (0 \<le> a)"
| "is_pos PosInf = True"
| "is_pos NegInf = False"
| "is_pos NaN = True"

fun fmul :: "f64 \<Rightarrow> f64 \<Rightarrow> f64" where
  "fmul NaN y = NaN"
| "fmul x NaN = NaN"
| "fmul (Finite a) (Finite b) = round64 (a * b)"
| "fmul x y = (if x = Finite 0 \<or> y = Finite 0 then NaN else inf_of_sign (is_pos x = is_pos y))"

fun fdiv :: "f64 \<Rightarrow> f64 \<Rightarrow> f64" where
  "fdiv NaN y = NaN"
| "fdiv x NaN = NaN"
| "fdiv (Finite a) (Finite b) =
     (if b = 0 then (if a = 0 then NaN else inf_of_sign (0 < a)) else round64 (a / b))"
| "fdiv (Finite a) y = Finite 0"
| "fdiv x (Finite b) = inf_of_sign (is_pos x = (0 \<le> b))"
| "fdiv x y = NaN"

fun fadd :: "f64 \<Rightarrow> f64 \<Rightarrow> f64" where
  "fadd NaN y = NaN"
| "fadd x NaN = NaN"
| "fadd (Finite a) (Finite b) = round64 (a + b)"
| "fadd PosInf NegInf = NaN"
| "fadd NegInf PosInf = NaN"
| "fadd (Finite a) y = y"
| "fadd x y = x"

fun fneg :: "f64 \<Rightarrow> f64" where
  "fneg (Finite a) = Finite (- a)"
| "fneg PosInf = NegInf"
| "fneg NegInf = PosInf"
| "fneg NaN = NaN"

definition fsub :: "f64 \<Rightarrow> f64 \<Rightarrow> f64" where
  "fsub x y = fadd x (fneg y)"

text \<open>The comparison \<^verbatim>\<open>x <= y\<close>; it is false as soon as one side is a NaN.\<close>

fun f64_le :: "f64 \<Rightarrow> f64 \<Rightarrow> bool" where
  "f64_le NaN y = False"
| "f64_le x NaN = False"
| "f64_le (Finite a) (Finite b) = (a \<le> b)"
| "f64_le NegInf y = True"
| "f64_le x PosInf = True"
| "f64_le x y = False"

text \<open>The conversion \<^verbatim>\<open>float64(n)\<close> of an integer and a constant of the source text.\<close>

definition f64_of_int :: "int \<Rightarrow> f64" where
  "f64_of_int n = round64 (of_int n)"

definition f64_const :: "rat \<Rightarrow> f64" where
  "f64_const q = round64 q"

text \<open>\<^verbatim>\<open>math.Floor\<close> and \<^verbatim>\<open>math.Ceil\<close> are exact.\<close>

fun Floor :: "f64 \<Rightarrow> f64" where
  "Floor (Finite a) = Finite (of_int \<lfloor>a\<rfloor>)"
| "Floor x = x"

fun Ceil :: "f64 \<Rightarrow> f64" where
  "Ceil (Finite a) = Finite (of_int \<lceil>a\<rceil>)"
| "Ceil x = x"

text \<open>
  What Go leaves to the implementation is a parameter: \<^verbatim>\<open>math.Log10\<close> and \<^verbatim>\<open>math.Pow\<close>,
  which IEEE 754 does not pin down, and the result of converting to an unsigned integer
  type a float64 whose truncation does not fit (or is no number).
\<close>

record platform =
  math_Log10 :: "f64 \<Rightarrow> f64"
  math_Pow :: "f64 \<Rightarrow> f64 \<Rightarrow> f64"
  uint16_unfit :: "f64 \<Rightarrow> 16 word"
  uint32_unfit :: "f64 \<Rightarrow> 32 word"

definition trunc_zero :: "rat \<Rightarrow> int" where
  "trunc_zero r = (if 0 \<le> r then \<lfloor>r\<rfloor> else \<lceil>r\<rceil>)"

fun uint16_of_f64 :: "platform \<Rightarrow> f64 \<Rightarrow> 16 word" where
  "uint16_of_f64 p (Finite r) =
     (if 0 \<le> trunc_zero r \<and> trunc_zero r < 65536 then word_of_int (trunc_zero r)
      else uint16_unfit p (Finite r))"
| "uint16_of_f64 p x = uint16_unfit p x"

fun uint32_of_f64 :: "platform \<Rightarrow> f64 \<Rightarrow> 32 word" where
  "uint32_of_f64 p (Finite r) =
     (if 0 \<le> trunc_zero r \<and> trunc_zero r < 4294967296 then word_of_int (trunc_zero r)
      else uint32_unfit p (Finite r))"
| "uint32_of_f64 p x = uint32_unfit p x"

section \<open>The INA226 driver\<close>

type_synonym byte = "8 word"
type_synonym uint16 = "16 word"

text \<open>An error of the bus transport or of a sysfs file: the drivers hand it on as it is.\<close>

datatype ext_error = ExtError nat

datatype error =
    IO ext_error
  | RShuntNotCorrect f64
  | BusOutOfRange int
  | NotAPWMPin
  | NotAValidPin
  | MultiError "ext_error list"

definition CONFIG_REG :: byte where "CONFIG_REG = 0x00"
definition SHUNTVOLTAGE_REG :: byte where "SHUNTVOLTAGE_REG = 0x01"
definition BUSVOLTAGE_REG :: byte where "BUSVOLTAGE_REG = 0x02"
definition CURRENT_REG :: byte where "CURRENT_REG = 0x04"
definition CALIBRATION_REG :: byte where "CALIBRATION_REG = 0x05"

definition INA226_MODE_SHUNT_BUS_CONT :: uint16 where "INA226_MODE_SHUNT_BUS_CONT = 0x07"
definition INA226_SHUNT_CONV_TIME_1100US :: uint16 where
  "INA226_SHUNT_CONV_TIME_1100US = push_bit 3 0x04"
definition INA226_BUS_CONV_TIME_1100US :: uint16 where
  "INA226_BUS_CONV_TIME_1100US = push_bit 6 0x04"
definition INA226_AVERAGES_16 :: uint16 where "INA226_AVERAGES_16 = push_bit 9 0x02"
definition INA226_RST :: uint16 where "INA226_RST = push_bit 15 0x01"

record LoadSet =
  rShunt :: f64
  iMax :: f64
  vBusMax :: f64
  vShuntMax :: f64

text \<open>
  The connection is an object of the i2c package: its two methods act on a state \<open>'w\<close> of
  their own (the bus and the chip behind it), which no other code sees. \<open>conn_log\<close> records
  every call made, in order. \<^verbatim>\<open>Read(buf)\<close> is given the length of the buffer and answers
  with the bytes it copied into it.
\<close>

datatype bus_call = BusWrite "byte list" | BusRead nat

record 'w Connection =
  conn_Write :: "byte list \<Rightarrow> 'w \<Rightarrow> ext_error option \<times> 'w"
  conn_Read :: "nat \<Rightarrow> 'w \<Rightarrow> (byte list \<times> ext_error option) \<times> 'w"
  conn_state :: 'w
  conn_log :: "bus_call list"

record 'w INA226Driver =
  connection :: "'w Connection"
  loadSet :: LoadSet

definition Write :: "byte list \<Rightarrow> 'w INA226Driver \<Rightarrow> ext_error option \<times> 'w INA226Driver" where
  "Write buf i =
     (case conn_Write (connection i) buf (conn_state (connection i)) of
        (err, w) \<Rightarrow>
          (err, i\<lparr>connection := (connection i)
                   \<lparr>conn_state := w, conn_log := conn_log (connection i) @ [BusWrite buf]\<rparr>\<rparr>))"

definition Read :: "nat \<Rightarrow> 'w INA226Driver \<Rightarrow> (byte list \<times> ext_error option) \<times> 'w INA226Driver" where
  "Read n i =
     (case conn_Read (connection i) n (conn_state (connection i)) of
        (r, w) \<Rightarrow>
          (r, i\<lparr>connection := (connection i)
                 \<lparr>conn_state := w, conn_log := conn_log (connection i) @ [BusRead n]\<rparr>\<rparr>))"

definition wordToByteArray :: "uint16 \<Rightarrow> byte list" where
  "wordToByteArray w = [ucast (drop_bit 8 w), ucast w]"

definition Configure :: "uint16 list \<Rightarrow> 'w INA226Driver \<Rightarrow> error option \<times> 'w INA226Driver" where
  "Configure confs i =
     (let configuration = fold (\<lambda>conf configuration. configuration OR conf) confs 0;
          buf = [CONFIG_REG] @ wordToByteArray configuration
      in case Write buf i of
           (Some err, i') \<Rightarrow> (Some (IO err), i')
         | (None, i') \<Rightarrow> (None, i'))"

definition Calibrate ::
  "platform \<Rightarrow> f64 \<Rightarrow> f64 \<Rightarrow> 'w INA226Driver \<Rightarrow> error option \<times> 'w INA226Driver" where
  "Calibrate p rShuntValue iMaxValue i0 =
     (let i = i0\<lparr>loadSet := (loadSet i0)\<lparr>rShunt := rShuntValue, iMax := iMaxValue\<rparr>\<rparr>;
          currentLSB = fdiv (iMax (loadSet i)) (f64_const 32768);
          currentLSB = fmul currentLSB (f64_const 1000000);
          currentLSB_mantissa =
            fdiv currentLSB (math_Pow p (f64_const 10) (Floor (math_Log10 p currentLSB)));
          currentLSB_approx =
            fmul (Ceil currentLSB_mantissa)
              (math_Pow p (f64_const 10) (Floor (math_Log10 p currentLSB)));
          currentLSB = fdiv currentLSB_approx (f64_const 1000000);
          calibrationValue =
            uint16_of_f64 p
              (fdiv (f64_const (512 / 100000)) (fmul currentLSB (rShunt (loadSet i))));
          buf = [CALIBRATION_REG] @ wordToByteArray calibrationValue
      in case Write buf i of
           (Some err, i') \<Rightarrow> (Some (IO err), i')
         | (None, i') \<Rightarrow> (None, i'))"

text \<open>
  \<^verbatim>\<open>Read\<close> copies what it got into a buffer of two zero bytes; the count it returns is
  dropped by the source, so a short answer leaves zeros behind.
\<close>

definition fill_buf :: "nat \<Rightarrow> byte list \<Rightarrow> byte list" where
  "fill_buf n bs = take n (bs @ replicate n 0)"

definition readRegister16 :: "byte \<Rightarrow> 'w INA226Driver \<Rightarrow> (error + uint16) \<times> 'w INA226Driver" where
  "readRegister16 reg i =
     (case Write [reg] i of
        (Some err, i1) \<Rightarrow> (Inl (IO err), i1)
      | (None, i1) \<Rightarrow>
          (case Read 2 i1 of
             ((bs, Some err), i2) \<Rightarrow> (Inl (IO err), i2)
           | ((bs, None), i2) \<Rightarrow>
               (let buf = fill_buf 2 bs;
                    val = push_bit 8 (ucast (buf ! 0)) OR ucast (buf ! 1)
                in (Inr val, i2))))"

definition readCalibrationRegister :: "'w INA226Driver \<Rightarrow> (error + uint16) \<times> 'w INA226Driver" where
  "readCalibrationRegister i =
     (case readRegister16 CALIBRATION_REG i of
        (Inl err, i') \<Rightarrow> (Inl err, i')
      | (Inr calReg, i') \<Rightarrow> (Inr calReg, i'))"

definition CurrentResolution :: "'w INA226Driver \<Rightarrow> (error + f64) \<times> 'w INA226Driver" where
  "CurrentResolution i =
     (if f64_le (rShunt (loadSet i)) (f64_const 0)
      then (Inl (RShuntNotCorrect (rShunt (loadSet i))), i)
      else case readCalibrationRegister i of
             (Inl err, i') \<Rightarrow> (Inl err, i')
           | (Inr calibration, i') \<Rightarrow>
               (Inr (fdiv (f64_const (512 / 100000))
                       (fmul (f64_of_int (uint calibration)) (rShunt (loadSet i)))), i'))"

definition ReadBusVoltage :: "'w INA226Driver \<Rightarrow> (error + f64) \<times> 'w INA226Driver" where
  "ReadBusVoltage i =
     (case readRegister16 BUSVOLTAGE_REG i of
        (Inl err, i') \<Rightarrow> (Inl err, i')
      | (Inr voltage, i') \<Rightarrow> (Inr (fmul (f64_of_int (uint voltage)) (f64_const (125 / 100))), i'))"

definition ReadShuntVoltage :: "'w INA226Driver \<Rightarrow> (error + f64) \<times> 'w INA226Driver" where
  "ReadShuntVoltage i =
     (case readRegister16 SHUNTVOLTAGE_REG i of
        (Inl err, i') \<Rightarrow> (Inl err, i')
      | (Inr voltage, i') \<Rightarrow> (Inr (fmul (f64_of_int (sint voltage)) (f64_const (25 / 10000))), i'))"

text \<open>
  A chip to run the driver against: sixteen-bit registers behind a register pointer. A
  write of one byte sets the pointer, a write of three stores a register, a read answers
  with the two bytes of the register pointed at. \<open>dead_bus\<close> fails every transfer.
\<close>

record chip =
  pointer :: byte
  registers :: "byte \<Rightarrow> uint16"

definition chip_Write :: "byte list \<Rightarrow> chip \<Rightarrow> ext_error option \<times> chip" where
  "chip_Write buf c =
     (case buf of
        [reg] \<Rightarrow> (None, c\<lparr>pointer := reg\<rparr>)
      | [reg, hi, lo] \<Rightarrow>
          (None, c\<lparr>pointer := reg,
                   registers := (registers c)(reg := push_bit 8 (ucast hi) OR ucast lo)\<rparr>)
      | _ \<Rightarrow> (Some (ExtError 1), c))"

definition chip_Read :: "nat \<Rightarrow> chip \<Rightarrow> (byte list \<times> ext_error option) \<times> chip" where
  "chip_Read n c = ((take n (wordToByteArray (registers c (pointer c))), None), c)"

definition chip_connection :: "(byte \<Rightarrow> uint16) \<Rightarrow> chip Connection" where
  "chip_connection regs =
     \<lparr>conn_Write = chip_Write, conn_Read = chip_Read,
      conn_state = \<lparr>pointer = 0, registers = regs\<rparr>, conn_log = []\<rparr>"

definition dead_bus :: "unit Connection" where
  "dead_bus =
     \<lparr>conn_Write = (\<lambda>buf w. (Some (ExtError 5), w)),
      conn_Read = (\<lambda>n w. (([], Some (ExtError 5)), w)),
      conn_state = (), conn_log = []\<rparr>"

definition no_load :: LoadSet where
  "no_load = \<lparr>rShunt = Finite 0, iMax = Finite 0, vBusMax = Finite 0, vShuntMax = Finite 0\<rparr>"

section \<open>The NanoPi NEO adaptor\<close>

record sysfsPin =
  pin :: int
  pwmPin :: int

text \<open>
  Handles of the sysfs package: a digital pin and a PWM pin know their number, a bus
  device the path it was opened at. In the adaptor's maps and in its bus array a handle
  may be nil (\<open>None\<close>).
\<close>

datatype sysfs_DigitalPin = NewDigitalPin int
datatype sysfs_PWMPin = NewPWMPin int
datatype I2cDevice = I2cDevice string
datatype i2c_Connection = NewConnection "I2cDevice option" int

text \<open>
  The methods of these handles read and write files of the kernel. They are calls to the
  outside: \<open>sysfs_op\<close> answers each with an error or none and moves the state \<open>'w\<close> of the
  outside on; \<open>sysfs_NewI2cDevice\<close> also answers with the device. \<open>os_log\<close> records the
  calls made, in order.
\<close>

datatype sysfs_call =
    DigitalPin_Export int
  | DigitalPin_Unexport int
  | DigitalPin_Direction int string
  | PWMPin_Export int
  | PWMPin_Unexport int
  | PWMPin_Enable int bool
  | PWMPin_InvertPolarity int bool
  | PWMPin_SetPeriod int "32 word"
  | PWMPin_SetDutyCycle int "32 word"
  | I2cDevice_Close I2cDevice
  | Open_I2cDevice string

record 'w Kernel =
  sysfs_op :: "sysfs_call \<Rightarrow> 'w \<Rightarrow> ext_error option \<times> 'w"
  sysfs_NewI2cDevice :: "string \<Rightarrow> 'w \<Rightarrow> (I2cDevice option \<times> ext_error option) \<times> 'w"

record 'w os =
  os_state :: 'w
  os_log :: "sysfs_call list"

definition sysfs :: "'w Kernel \<Rightarrow> sysfs_call \<Rightarrow> 'w os \<Rightarrow> ext_error option \<times> 'w os" where
  "sysfs k call s =
     (case sysfs_op k call (os_state s) of
        (err, w) \<Rightarrow> (err, \<lparr>os_state = w, os_log = os_log s @ [call]\<rparr>))"

definition NewI2cDevice ::
  "'w Kernel \<Rightarrow> string \<Rightarrow> 'w os \<Rightarrow> (I2cDevice option \<times> ext_error option) \<times> 'w os" where
  "NewI2cDevice k location s =
     (case sysfs_NewI2cDevice k location (os_state s) of
        (r, w) \<Rightarrow> (r, \<lparr>os_state = w, os_log = os_log s @ [Open_I2cDevice location]\<rparr>))"

text \<open>
  The adaptor. A Go map is an association list with the nil map empty: reading a key that
  is absent gives the zero value, here and in a nil map alike. The order of the list stands
  for the order in which \<^verbatim>\<open>range\<close> visits the map, which Go does not fix. \<open>i2cBuses\<close> is the
  array of two slots.
\<close>

record Adaptor =
  board :: string
  pinmap :: "(string \<times> sysfsPin) list"
  digitalPins :: "(int \<times> sysfs_DigitalPin option) list"
  pwmPins :: "(int \<times> sysfs_PWMPin option) list"
  i2cBuses :: "I2cDevice option \<times> I2cDevice option"

definition pins :: "(string \<times> sysfsPin) list" where
  "pins =
     [(''GPIOG11'', \<lparr>pin = 203, pwmPin = - 1\<rparr>),
      (''GPIOC0'', \<lparr>pin = 64, pwmPin = - 1\<rparr>),
      (''GPIOC1'', \<lparr>pin = 65, pwmPin = - 1\<rparr>),
      (''GPIOC2'', \<lparr>pin = 66, pwmPin = - 1\<rparr>),
      (''GPIOC3'', \<lparr>pin = 67, pwmPin = - 1\<rparr>),
      (''GPIOA6'', \<lparr>pin = 6, pwmPin = - 1\<rparr>),
      (''GPIOA2'', \<lparr>pin = 14, pwmPin = - 1\<rparr>),
      (''GPIOA3'', \<lparr>pin = 16, pwmPin = - 1\<rparr>)]"

definition NewAdaptor :: Adaptor where
  "NewAdaptor =
     \<lparr>board = ''nanopi-neo'', pinmap = [], digitalPins = [], pwmPins = [],
      i2cBuses = (None, None)\<rparr>"

text \<open>\<^verbatim>\<open>m[k]\<close> for a map of pointers: nil when the key is absent.\<close>

definition at_key :: "('k \<times> 'a option) list \<Rightarrow> 'k \<Rightarrow> 'a option" where
  "at_key m k = (case map_of m k of None \<Rightarrow> None | Some p \<Rightarrow> p)"

text \<open>\<^verbatim>\<open>multierror.Append\<close>: the nil error is the empty list.\<close>

definition multierror_Append :: "ext_error list \<Rightarrow> ext_error \<Rightarrow> ext_error list" where
  "multierror_Append err e = err @ [e]"

definition as_error :: "ext_error list \<Rightarrow> error option" where
  "as_error err = (if err = [] then None else Some (MultiError err))"

fun Finalize_digitalPins ::
  "'w Kernel \<Rightarrow> (int \<times> sysfs_DigitalPin option) list \<Rightarrow> ext_error list \<times> 'w os \<Rightarrow>
   ext_error list \<times> 'w os" where
  "Finalize_digitalPins k [] (err, s) = (err, s)"
| "Finalize_digitalPins k ((key, None) # rest) (err, s) = Finalize_digitalPins k rest (err, s)"
| "Finalize_digitalPins k ((key, Some (NewDigitalPin n)) # rest) (err, s) =
     (case sysfs k (DigitalPin_Unexport n) s of
        (Some e, s') \<Rightarrow> Finalize_digitalPins k rest (multierror_Append err e, s')
      | (None, s') \<Rightarrow> Finalize_digitalPins k rest (err, s'))"

fun Finalize_pwmPins ::
  "'w Kernel \<Rightarrow> (int \<times> sysfs_PWMPin option) list \<Rightarrow> ext_error list \<times> 'w os \<Rightarrow>
   ext_error list \<times> 'w os" where
  "Finalize_pwmPins k [] (err, s) = (err, s)"
| "Finalize_pwmPins k ((key, None) # rest) (err, s) = Finalize_pwmPins k rest (err, s)"
| "Finalize_pwmPins k ((key, Some (NewPWMPin n)) # rest) (err, s) =
     (let (err1, s1) =
            (case sysfs k (PWMPin_Enable n False) s of
               (Some errs, s') \<Rightarrow> (multierror_Append err errs, s')
             | (None, s') \<Rightarrow> (err, s'));
          (err2, s2) =
            (case sysfs k (PWMPin_Unexport n) s1 of
               (Some errs, s') \<Rightarrow> (multierror_Append err1 errs, s')
             | (None, s') \<Rightarrow> (err1, s'))
      in Finalize_pwmPins k rest (err2, s2))"

fun Finalize_i2cBuses ::
  "'w Kernel \<Rightarrow> I2cDevice option list \<Rightarrow> ext_error list \<times> 'w os \<Rightarrow> ext_error list \<times> 'w os" where
  "Finalize_i2cBuses k [] (err, s) = (err, s)"
| "Finalize_i2cBuses k (None # rest) (err, s) = Finalize_i2cBuses k rest (err, s)"
| "Finalize_i2cBuses k (Some bus # rest) (err, s) =
     (case sysfs k (I2cDevice_Close bus) s of
        (Some e, s') \<Rightarrow> Finalize_i2cBuses k rest (multierror_Append err e, s')
      | (None, s') \<Rightarrow> Finalize_i2cBuses k rest (err, s'))"

definition Finalize :: "'w Kernel \<Rightarrow> Adaptor \<times> 'w os \<Rightarrow> error option \<times> Adaptor \<times> 'w os" where
  "Finalize k cs =
     (case cs of (c, s) \<Rightarrow>
        (case Finalize_i2cBuses k [fst (i2cBuses c), snd (i2cBuses c)]
                (Finalize_pwmPins k (pwmPins c)
                   (Finalize_digitalPins k (digitalPins c) ([], s))) of
           (err, s') \<Rightarrow> (as_error err, c, s')))"

text \<open>
  Indexing the array of two slots panics outside 0 and 1; a function that panics does
  not return.
\<close>

datatype panic = IndexOutOfRange int nat

datatype 'a go_result = Returned 'a | Panicked panic

definition index2 :: "'a \<times> 'a \<Rightarrow> int \<Rightarrow> panic + 'a" where
  "index2 arr n =
     (if n = 0 then Inr (fst arr) else if n = 1 then Inr (snd arr)
      else Inl (IndexOutOfRange n 2))"

definition store2 :: "'a \<times> 'a \<Rightarrow> int \<Rightarrow> 'a \<Rightarrow> 'a \<times> 'a" where
  "store2 arr n v = (if n = 0 then (v, snd arr) else (fst arr, v))"

function decimal :: "nat \<Rightarrow> string" where
  "decimal n =
     (if n < 10 then [char_of (48 + n)] else decimal (n div 10) @ [char_of (48 + n mod 10)])"
  by pat_completeness auto
termination
  by (relation "measure id") auto

declare decimal.simps [simp del]

definition GetConnection ::
  "'w Kernel \<Rightarrow> int \<Rightarrow> int \<Rightarrow> Adaptor \<times> 'w os \<Rightarrow>
   (i2c_Connection option \<times> error option) go_result \<times> Adaptor \<times> 'w os" where
  "GetConnection k address bus cs =
     (case cs of (c, s) \<Rightarrow>
        if bus < 0 \<or> bus > 2 then (Returned (None, Some (BusOutOfRange bus)), c, s)
        else
          (case index2 (i2cBuses c) bus of
             Inl p \<Rightarrow> (Panicked p, c, s)
           | Inr None \<Rightarrow>
               (case NewI2cDevice k (''/dev/i2c-'' @ decimal (nat bus)) s of
                  ((dev, err), s') \<Rightarrow>
                    (Returned (Some (NewConnection dev address), map_option IO err),
                     c\<lparr>i2cBuses := store2 (i2cBuses c) bus dev\<rparr>, s'))
           | Inr (Some dev) \<Rightarrow> (Returned (Some (NewConnection (Some dev) address), None), c, s)))"

definition translatePin :: "string \<Rightarrow> error + int" where
  "translatePin name = (case map_of pins name of Some val \<Rightarrow> Inr (pin val) | None \<Rightarrow> Inl NotAValidPin)"

definition DigitalPin ::
  "'w Kernel \<Rightarrow> string \<Rightarrow> string \<Rightarrow> Adaptor \<times> 'w os \<Rightarrow>
   (error + sysfs_DigitalPin) \<times> Adaptor \<times> 'w os" where
  "DigitalPin k name dir cs =
     (case cs of (c, s) \<Rightarrow>
        (case translatePin name of
           Inl err \<Rightarrow> (Inl err, c, s)
         | Inr i \<Rightarrow>
             (case (case at_key (digitalPins c) i of
                      None \<Rightarrow>
                        (case sysfs k (DigitalPin_Export i) s of
                           (err, s1) \<Rightarrow>
                             (err, NewDigitalPin i,
                              c\<lparr>digitalPins :=
                                  AList.update i (Some (NewDigitalPin i)) (digitalPins c)\<rparr>, s1))
                    | Some h \<Rightarrow> (None, h, c, s)) of
                (Some err, h, c1, s1) \<Rightarrow> (Inl (IO err), c1, s1)
              | (None, NewDigitalPin n, c1, s1) \<Rightarrow>
                  (case sysfs k (DigitalPin_Direction n dir) s1 of
                     (Some err, s2) \<Rightarrow> (Inl (IO err), c1, s2)
                   | (None, s2) \<Rightarrow> (Inr (NewDigitalPin n), c1, s2)))))"

definition PWMPin ::
  "'w Kernel \<Rightarrow> string \<Rightarrow> Adaptor \<times> 'w os \<Rightarrow> (error + sysfs_PWMPin) \<times> Adaptor \<times> 'w os" where
  "PWMPin k name cs =
     (case cs of (c, s) \<Rightarrow>
        (let sysPin = (case map_of (pinmap c) name of
                         None \<Rightarrow> \<lparr>pin = 0, pwmPin = 0\<rparr> | Some e \<Rightarrow> e)
         in if pwmPin sysPin \<noteq> - 1 then
              (case at_key (pwmPins c) (pwmPin sysPin) of
                 None \<Rightarrow>
                   (case sysfs k (PWMPin_Export (pwmPin sysPin)) s of
                      (Some err, s1) \<Rightarrow> (Inl (IO err), c, s1)
                    | (None, s1) \<Rightarrow>
                   (case sysfs k (PWMPin_Enable (pwmPin sysPin) False) s1 of
                      (Some err, s2) \<Rightarrow> (Inl (IO err), c, s2)
                    | (None, s2) \<Rightarrow>
                   (case sysfs k (PWMPin_InvertPolarity (pwmPin sysPin) False) s2 of
                      (Some err, s3) \<Rightarrow> (Inl (IO err), c, s3)
                    | (None, s3) \<Rightarrow>
                   (case sysfs k (PWMPin_Enable (pwmPin sysPin) True) s3 of
                      (Some err, s4) \<Rightarrow> (Inl (IO err), c, s4)
                    | (None, s4) \<Rightarrow>
                   (case sysfs k (PWMPin_SetPeriod (pwmPin sysPin) 10000000) s4 of
                      (Some err, s5) \<Rightarrow> (Inl (IO err), c, s5)
                    | (None, s5) \<Rightarrow>
                        (Inr (NewPWMPin (pwmPin sysPin)),
                         c\<lparr>pwmPins :=
                             AList.update (pwmPin sysPin) (Some (NewPWMPin (pwmPin sysPin)))
                               (pwmPins c)\<rparr>, s5))))))
               | Some h \<Rightarrow> (Inr h, c, s))
            else (Inl NotAPWMPin, c, s)))"

text \<open>
  Modelled from the spec: \<^verbatim>\<open>gobot.FromScale\<close> and \<^verbatim>\<open>gobot.ToScale\<close> are code of the
  repository that is not among the sources at hand. The spec has the angle "linearly mapped
  from the angle range [0,180] to a pulse-width range": the first takes its input from
  \<open>[lo, hi]\<close> to \<open>[0, 1]\<close>, the second from \<open>[0, 1]\<close> to \<open>[lo, hi]\<close>.
\<close>

definition FromScale :: "f64 \<Rightarrow> f64 \<Rightarrow> f64 \<Rightarrow> f64" where
  "FromScale input lo hi = fdiv (fsub input lo) (fsub hi lo)"

definition ToScale :: "f64 \<Rightarrow> f64 \<Rightarrow> f64 \<Rightarrow> f64" where
  "ToScale input lo hi = fadd (fmul input (fsub hi lo)) lo"

text \<open>The constant expressions \<^verbatim>\<open>0.0005 * 1e9\<close> and \<^verbatim>\<open>0.0020 * 1e9\<close> are evaluated exactly.\<close>

definition minDuty :: f64 where
  "minDuty = f64_const (5 / 10000 * 1000000000)"

definition maxDuty :: f64 where
  "maxDuty = f64_const (20 / 10000 * 1000000000)"

definition servo_duty :: "platform \<Rightarrow> byte \<Rightarrow> 32 word" where
  "servo_duty p angle =
     uint32_of_f64 p
       (ToScale (FromScale (f64_of_int (uint angle)) (f64_const 0) (f64_const 180))
          minDuty maxDuty)"

definition ServoWrite ::
  "'w Kernel \<Rightarrow> platform \<Rightarrow> string \<Rightarrow> byte \<Rightarrow> Adaptor \<times> 'w os \<Rightarrow>
   error option \<times> Adaptor \<times> 'w os" where
  "ServoWrite k p name angle cs =
     (case PWMPin k name cs of
        (Inl err, c, s) \<Rightarrow> (Some err, c, s)
      | (Inr (NewPWMPin n), c, s) \<Rightarrow>
          (case sysfs k (PWMPin_SetDutyCycle n (servo_duty p angle)) s of
             (err, s') \<Rightarrow> (map_option IO err, c, s')))"

text \<open>
  Kernels to run the adaptor against: one where every call succeeds, and one where the
  calls in a given list fail. Their state is the period last set on each PWM channel.
\<close>

definition kernel_failing :: "sysfs_call list \<Rightarrow> (int \<Rightarrow> 32 word) Kernel" where
  "kernel_failing bad =
     \<lparr>sysfs_op = (\<lambda>call w.
        (if call \<in> set bad then Some (ExtError 13) else None,
         (case call of PWMPin_SetPeriod n period \<Rightarrow> w(n := period) | _ \<Rightarrow> w))),
      sysfs_NewI2cDevice = (\<lambda>location w. ((Some (I2cDevice location), None), w))\<rparr>"

definition boot :: "(int \<Rightarrow> 32 word) os" where
  "boot = \<lparr>os_state = (\<lambda>n. 0), os_log = []\<rparr>"

text \<open>A register file with one register set and zero elsewhere.\<close>

definition one_register :: "byte \<Rightarrow> uint16 \<Rightarrow> byte \<Rightarrow> uint16" where
  "one_register reg v = (\<lambda>r. 0)(reg := v)"

text \<open>The driver over the chip with the given register contents and load set.\<close>

definition sensor :: "(byte \<Rightarrow> uint16) \<Rightarrow> LoadSet \<Rightarrow> chip INA226Driver" where
  "sensor regs l = \<lparr>connection = chip_connection regs, loadSet = l\<rparr>"


section \<open>What the spec says of the adaptor\<close>

text \<open>
  The release of every handle, in the words of the spec: unexport each digital pin, disable
  then unexport each PWM pin, close each bus; and the errors of those calls that fail, when
  every one of them is made.
\<close>

definition release_digital :: "sysfs_DigitalPin option \<Rightarrow> sysfs_call list" where
  "release_digital h = (case h of None \<Rightarrow> [] | Some (NewDigitalPin n) \<Rightarrow> [DigitalPin_Unexport n])"

definition release_pwm :: "sysfs_PWMPin option \<Rightarrow> sysfs_call list" where
  "release_pwm h =
     (case h of None \<Rightarrow> [] | Some (NewPWMPin n) \<Rightarrow> [PWMPin_Enable n False, PWMPin_Unexport n])"

definition release_bus :: "I2cDevice option \<Rightarrow> sysfs_call list" where
  "release_bus h = (case h of None \<Rightarrow> [] | Some bus \<Rightarrow> [I2cDevice_Close bus])"

definition release_calls :: "Adaptor \<Rightarrow> sysfs_call list" where
  "release_calls c =
     concat (map (release_digital \<circ> snd) (digitalPins c)) @
     concat (map (release_pwm \<circ> snd) (pwmPins c)) @
     release_bus (fst (i2cBuses c)) @ release_bus (snd (i2cBuses c))"

fun failures :: "'w Kernel \<Rightarrow> sysfs_call list \<Rightarrow> 'w \<Rightarrow> ext_error list" where
  "failures k [] w = []"
| "failures k (call # calls) w =
     (case sysfs_op k call w of
        (None, w') \<Rightarrow> failures k calls w'
      | (Some e, w') \<Rightarrow> e # failures k calls w')"

text \<open>
  The handle of a PWM channel, made on first use: the five calls that set the channel up
  stop at the first that fails, and the handle is kept once all have passed.
\<close>

fun until_error :: "'w Kernel \<Rightarrow> sysfs_call list \<Rightarrow> 'w os \<Rightarrow> ext_error option \<times> 'w os" where
  "until_error k [] s = (None, s)"
| "until_error k (call # calls) s =
     (case sysfs k call s of
        (Some e, s') \<Rightarrow> (Some e, s')
      | (None, s') \<Rightarrow> until_error k calls s')"

definition channel_setup :: "int \<Rightarrow> sysfs_call list" where
  "channel_setup n =
     [PWMPin_Export n, PWMPin_Enable n False, PWMPin_InvertPolarity n False,
      PWMPin_Enable n True, PWMPin_SetPeriod n 10000000]"

definition channel_handle ::
  "'w Kernel \<Rightarrow> int \<Rightarrow> Adaptor \<times> 'w os \<Rightarrow> (error + sysfs_PWMPin) \<times> Adaptor \<times> 'w os" where
  "channel_handle k n cs =
     (case cs of (c, s) \<Rightarrow>
        (case at_key (pwmPins c) n of
           Some h \<Rightarrow> (Inr h, c, s)
         | None \<Rightarrow>
             (case until_error k (channel_setup n) s of
                (Some e, s') \<Rightarrow> (Inl (IO e), c, s')
              | (None, s') \<Rightarrow>
                  (Inr (NewPWMPin n),
                   c\<lparr>pwmPins := AList.update n (Some (NewPWMPin n)) (pwmPins c)\<rparr>, s'))))"

text \<open>Every call of a list made, the errors gathered behind those at hand.\<close>

fun attempt_all :: "'w Kernel \<Rightarrow> sysfs_call list \<Rightarrow> ext_error list \<times> 'w os \<Rightarrow> ext_error list \<times> 'w os" where
  "attempt_all k [] es = es"
| "attempt_all k (call # calls) es =
     (case sysfs k call (snd es) of
        (None, s') \<Rightarrow> attempt_all k calls (fst es, s')
      | (Some e, s') \<Rightarrow> attempt_all k calls (fst es @ [e], s'))"

text \<open>
  The pulse width for an angle, in float64: the angle over 180, times the 1500000 ns between
  the two ends, plus the 500000 ns of the lower end.
\<close>

definition servo_width :: "nat \<Rightarrow> f64" where
  "servo_width n = fadd (fmul (round64 (of_nat n / 180)) (Finite 1500000)) (Finite 500000)"

section \<open>What the spec says of the voltages\<close>

text \<open>
  The two readings as the spec words them, "expressed in volts": the bus-voltage register
  at 1.25 mV per step is the register times 0.00125 V, the shunt-voltage register at 2.5 uV
  per step is the signed register times 0.0000025 V.
\<close>

definition spec_busVoltage_volts :: "uint16 \<Rightarrow> f64" where
  "spec_busVoltage_volts reg = fmul (f64_of_int (uint reg)) (f64_const (125 / 100000))"

definition spec_shuntVoltage_volts :: "uint16 \<Rightarrow> f64" where
  "spec_shuntVoltage_volts reg = fmul (f64_of_int (sint reg)) (f64_const (25 / 10000000))"

section \<open>What the spec says of the calibration\<close>

text \<open>
  The calibration value in the words of the spec: the least significant bit of the current
  is the maximum current over 32768, in micro-amperes; its mantissa is rounded up to a whole
  digit and multiplied back by the power of ten; back in amperes, it and the shunt
  resistance divide 0.00512, and the quotient is converted to sixteen bits.
\<close>

definition spec_currentLSB :: "platform \<Rightarrow> f64 \<Rightarrow> f64" where
  "spec_currentLSB p maxCurrentAmps =
     (let microAmps = fmul (fdiv maxCurrentAmps (f64_const 32768)) (f64_const 1000000);
          exponent = Floor (math_Log10 p microAmps);
          mantissa = fdiv microAmps (math_Pow p (f64_const 10) exponent);
          rounded = fmul (Ceil mantissa) (math_Pow p (f64_const 10) exponent)
      in fdiv rounded (f64_const 1000000))"

definition spec_quotient :: "platform \<Rightarrow> f64 \<Rightarrow> f64 \<Rightarrow> f64" where
  "spec_quotient p shuntResistanceOhms maxCurrentAmps =
     fdiv (f64_const (512 / 100000)) (fmul (spec_currentLSB p maxCurrentAmps) shuntResistanceOhms)"

definition spec_calibrationValue :: "platform \<Rightarrow> f64 \<Rightarrow> f64 \<Rightarrow> uint16" where
  "spec_calibrationValue p shuntResistanceOhms maxCurrentAmps =
     uint16_of_f64 p (spec_quotient p shuntResistanceOhms maxCurrentAmps)"

text \<open>A stored shunt resistance counts as positive when it is a number above zero.\<close>

definition f64_positive :: "f64 \<Rightarrow> bool" where
  "f64_positive x = (case x of Finite a \<Rightarrow> 0 < a | PosInf \<Rightarrow> True | _ \<Rightarrow> False)"

section \<open>Things to run the models on\<close>

text \<open>
  A platform: \<open>math_Log10\<close> answers with the whole part of the logarithm (the drivers take
  the floor of it at once), \<open>math_Pow\<close> with the rounded power for a whole exponent, and the
  conversions that do not fit with zero.
\<close>

function dec_digits :: "int \<Rightarrow> int \<Rightarrow> int" where
  "dec_digits acc n = (if n \<le> 0 then acc else dec_digits (acc + 1) (n div 10))"
  by pat_completeness auto
termination
  by (relation "measure (\<lambda>(acc, n). nat n)") auto

declare dec_digits.simps [simp del]

definition ilog10 :: "rat \<Rightarrow> int" where
  "ilog10 x = (if 1 \<le> x then dec_digits 0 \<lfloor>x\<rfloor> - 1 else - dec_digits 0 (\<lceil>1 / x\<rceil> - 1))"

definition powi_rat :: "rat \<Rightarrow> int \<Rightarrow> rat" where
  "powi_rat a n = (if 0 \<le> n then a ^ nat n else 1 / a ^ nat (- n))"

definition reference_platform :: platform where
  "reference_platform =
     \<lparr>math_Log10 = (\<lambda>x. case x of
          Finite a \<Rightarrow> if 0 < a then Finite (of_int (ilog10 a)) else if a = 0 then NegInf else NaN
        | PosInf \<Rightarrow> PosInf
        | _ \<Rightarrow> NaN),
      math_Pow = (\<lambda>x y. case (x, y) of
          (Finite a, Finite b) \<Rightarrow>
            if a \<noteq> 0 \<and> of_int \<lfloor>b\<rfloor> = b then round64 (powi_rat a \<lfloor>b\<rfloor>) else NaN
        | _ \<Rightarrow> NaN),
      uint16_unfit = (\<lambda>x. 0),
      uint32_unfit = (\<lambda>x. 0)\<rparr>"

definition load :: "f64 \<Rightarrow> LoadSet" where
  "load r = no_load\<lparr>rShunt := r\<rparr>"

definition dead_sensor :: "unit INA226Driver" where
  "dead_sensor = \<lparr>connection = dead_bus, loadSet = no_load\<rparr>"

text \<open>
  The board after two digital pins and one PWM pin have been asked for, on a kernel where
  the calls in \<open>bad\<close> fail.
\<close>

definition board_in_use :: "sysfs_call list \<Rightarrow> Adaptor \<times> (int \<Rightarrow> 32 word) os" where
  "board_in_use bad =
     snd (PWMPin (kernel_failing bad) ''GPIOA6''
       (snd (DigitalPin (kernel_failing bad) ''GPIOC0'' ''in''
         (snd (DigitalPin (kernel_failing bad) ''GPIOG11'' ''out'' (NewAdaptor, boot))))))"

section \<open>Rounding to binary64\<close>

text \<open>
  The digit count and the exponent are what their names say, and rounding leaves a number
  alone that has at most 53 significant bits: the integers and the quarters that the
  drivers feed it are of that kind.
\<close>

lemma bits_from_acc: "0 \<le> n \<Longrightarrow> bits_from acc n = acc + bits_from 0 n"
proof (induction "nat n" arbitrary: n acc rule: less_induct)
  case less
  show ?case
  proof (cases "n \<le> 0")
    case True
    then show ?thesis by (simp add: bits_from.simps)
  next
    case False
    then have *: "nat (n div 2) < nat n" "0 \<le> n div 2" by auto
    have "bits_from acc n = bits_from (acc + 1) (n div 2)"
      using False by (simp add: bits_from.simps [of acc n])
    also have "\<dots> = acc + 1 + bits_from 0 (n div 2)"
      using less(1) [OF *, of "acc + 1"] by simp
    also have "\<dots> = acc + bits_from 1 (n div 2)"
      using less(1) [OF *, of 1] by simp
    also have "bits_from 1 (n div 2) = bits_from 0 n"
      using False by (simp add: bits_from.simps [of 0 n])
    finally show ?thesis .
  qed
qed

lemma bitlen_pos: "0 < n \<Longrightarrow> bitlen n = 1 + bitlen (n div 2)"
  unfolding bitlen_def
  using bits_from_acc [of "n div 2" 1] by (simp add: bits_from.simps [of 0 n])

lemma bitlen_nonpos: "n \<le> 0 \<Longrightarrow> bitlen n = 0"
  by (simp add: bitlen_def bits_from.simps)

lemma bitlen_nonneg: "0 \<le> bitlen n"
proof (induction "nat n" arbitrary: n rule: less_induct)
  case less
  show ?case
  proof (cases "n \<le> 0")
    case True
    then show ?thesis by (simp add: bitlen_nonpos)
  next
    case False
    then have "nat (n div 2) < nat n" by auto
    from less [OF this] False show ?thesis by (simp add: bitlen_pos)
  qed
qed

lemma bitlen_bounds: "0 < n \<Longrightarrow> 2 ^ nat (bitlen n - 1) \<le> n \<and> n < 2 ^ nat (bitlen n)"
proof (induction "nat n" arbitrary: n rule: less_induct)
  case less
  show ?case
  proof (cases "n = 1")
    case True
    then show ?thesis by (simp add: bitlen_pos bitlen_nonpos)
  next
    case False
    with less(2) have h: "0 < n div 2" "nat (n div 2) < nat n" by auto
    from less(1) [OF h(2) h(1)] have ih: "2 ^ nat (bitlen (n div 2) - 1) \<le> n div 2"
      "n div 2 < 2 ^ nat (bitlen (n div 2))" by auto
    have b: "bitlen n = 1 + bitlen (n div 2)" using less(2) by (rule bitlen_pos)
    have p: "1 \<le> bitlen (n div 2)" using bitlen_pos [OF h(1)] bitlen_nonneg [of "n div 2 div 2"] by simp
    have e1: "nat (bitlen n - 1) = Suc (nat (bitlen (n div 2) - 1))" using b p by simp
    have e2: "nat (bitlen n) = Suc (nat (bitlen (n div 2)))" using b p by simp
    have d1: "2 * a \<le> n" if "a \<le> n div 2" for a using that by presburger
    have d2: "n < 2 * a" if "n div 2 < a" for a using that by presburger
    show ?thesis unfolding e1 e2 power_Suc using d1 [OF ih(1)] d2 [OF ih(2)] by simp
  qed
qed

lemma pow2_powi: "pow2 e = 2 powi e"
  by (simp add: pow2_def power_int_def field_simps)


lemma bitlen_le: "n < 2 ^ b \<Longrightarrow> bitlen n \<le> int b"
proof (cases "0 < n")
  case True
  assume "n < 2 ^ b"
  with bitlen_bounds [OF True] have "(2::int) ^ nat (bitlen n - 1) < 2 ^ b" by linarith
  then have "nat (bitlen n - 1) < b" by simp
  then show ?thesis by linarith
next
  case False
  then show ?thesis by (simp add: bitlen_nonpos)
qed

lemma pow2_ilog2_le: "0 < x \<Longrightarrow> pow2 (ilog2 x) \<le> x"
proof (cases "1 \<le> x")
  case True
  then have fl: "0 < \<lfloor>x\<rfloor>" by simp
  have b: "1 \<le> bitlen \<lfloor>x\<rfloor>" using bitlen_pos [OF fl] bitlen_nonneg [of "\<lfloor>x\<rfloor> div 2"] by simp
  have "pow2 (ilog2 x) = 2 ^ nat (bitlen \<lfloor>x\<rfloor> - 1)"
    using True b by (simp add: ilog2_def pow2_def)
  also have "\<dots> = of_int (2 ^ nat (bitlen \<lfloor>x\<rfloor> - 1))" by simp
  also have "\<dots> \<le> of_int \<lfloor>x\<rfloor>" using bitlen_bounds [OF fl] by (simp only: of_int_le_iff)
  also have "\<dots> \<le> x" by simp
  finally show ?thesis .
next
  case False
  assume pos: "0 < x"
  define c where "c = \<lceil>1 / x\<rceil>"
  have "1 < 1 / x" using False pos by simp
  then have c2: "2 \<le> c" unfolding c_def by linarith
  then have c1: "0 < c - 1" by simp
  have b: "1 \<le> bitlen (c - 1)" using bitlen_pos [OF c1] bitlen_nonneg [of "(c - 1) div 2"] by simp
  have "c - 1 < 2 ^ nat (bitlen (c - 1))" using bitlen_bounds [OF c1] by simp
  then have "c \<le> 2 ^ nat (bitlen (c - 1))" by simp
  then have "(of_int c :: rat) \<le> of_int (2 ^ nat (bitlen (c - 1)))" by (simp only: of_int_le_iff)
  then have "(of_int c :: rat) \<le> 2 ^ nat (bitlen (c - 1))" by simp
  moreover have "1 / x \<le> of_int c" unfolding c_def by simp
  ultimately have "1 / x \<le> 2 ^ nat (bitlen (c - 1))" by (rule order_trans [rotated])
  then have "1 / 2 ^ nat (bitlen (c - 1)) \<le> x" using pos by (simp add: field_simps)
  moreover have "pow2 (ilog2 x) = 1 / 2 ^ nat (bitlen (c - 1))"
    using False b by (simp add: ilog2_def pow2_def c_def)
  ultimately show ?thesis by simp
qed


lemma round_half_even_of_int: "round_half_even (of_int z) = z"
  by (simp add: round_half_even_def ties_even_def)

lemma dyadic_bound:
  assumes "\<bar>m\<bar> < 2 ^ p"
  shows "\<bar>(of_int m :: rat) / 2 ^ j\<bar> < 2 powi (int p - int j)"
proof -
  have "(of_int \<bar>m\<bar> :: rat) < of_int (2 ^ p)" using assms by (simp only: of_int_less_iff)
  then have "(of_int \<bar>m\<bar> :: rat) < 2 ^ p" by simp
  then have "(of_int \<bar>m\<bar> :: rat) / 2 ^ j < 2 ^ p / 2 ^ j" by (simp add: divide_strict_right_mono)
  moreover have "\<bar>(of_int m :: rat) / 2 ^ j\<bar> = of_int \<bar>m\<bar> / 2 ^ j" by simp
  moreover have "(2::rat) powi (int p - int j) = 2 ^ p / 2 ^ j" by (simp add: power_int_diff)
  ultimately show ?thesis by simp
qed

lemma ilog2_less:
  assumes "0 < x" and "x < 2 powi b"
  shows "ilog2 x < b"
proof (rule ccontr)
  assume "\<not> ilog2 x < b"
  then have "(2::rat) powi b \<le> 2 powi ilog2 x" by (simp add: power_int_increasing)
  also have "\<dots> \<le> x" using pow2_ilog2_le [OF assms(1)] by (simp add: pow2_powi)
  finally show False using assms(2) by simp
qed

lemma round64_dyadic:
  assumes m: "\<bar>m\<bar> < 2 ^ 53" and j: "j \<le> 1074"
  shows "round64 (of_int m / 2 ^ j) = Finite (of_int m / 2 ^ j)"
proof (cases "m = 0")
  case True
  then show ?thesis by (simp add: round64_def)
next
  case False
  define x :: rat where "x = of_int m / 2 ^ j"
  define k where "k = max (ilog2 \<bar>x\<bar> - 52) (- 1074)"
  define t where "t = nat (- int j - k)"
  have x0: "x \<noteq> 0" using False by (simp add: x_def)
  have "ilog2 \<bar>x\<bar> < int 53 - int j"
    using ilog2_less [of "\<bar>x\<bar>" "int 53 - int j"] dyadic_bound [OF m, of j] x0
    unfolding x_def by simp
  then have kj: "k \<le> - int j" using j by (simp add: k_def)
  then have t: "int t = - int j - k" by (simp add: t_def)
  have k: "k = - int j - int t" using t by simp
  have xm: "x = of_int m * 2 powi (- int j)"
    by (simp add: x_def power_int_minus field_simps)
  have "x / pow2 k = of_int m * (2 powi (- int j) * 2 powi (- k))"
    by (simp add: xm pow2_powi power_int_minus field_simps)
  also have "2 powi (- int j) * 2 powi (- k) = (2::rat) powi (int t)"
    unfolding t by (simp add: power_int_add [symmetric])
  also have "of_int m * (2::rat) powi (int t) = of_int (m * 2 ^ t)" by simp
  finally have q: "round_half_even (x / pow2 k) = m * 2 ^ t"
    by (simp only: round_half_even_of_int)
  have "\<bar>m * 2 ^ t\<bar> = \<bar>m\<bar> * 2 ^ t" by (simp add: abs_mult)
  also have "\<dots> < 2 ^ 53 * 2 ^ t" using m by (simp only: mult_strict_right_mono zero_less_power zero_less_numeral)
  also have "\<dots> = 2 ^ (53 + t)" by (simp only: power_add)
  finally have "bitlen \<bar>m * 2 ^ t\<bar> \<le> int (53 + t)" by (rule bitlen_le)
  then have fit: "\<not> 1024 < bitlen \<bar>m * 2 ^ t\<bar> + k" using t by simp
  have "of_int (m * 2 ^ t) * pow2 k = of_int m * ((2::rat) powi (int t) * 2 powi k)"
    by (simp add: pow2_powi)
  also have "(2::rat) powi (int t) * 2 powi k = 2 powi (- int j)"
    unfolding t by (simp add: power_int_add [symmetric])
  finally have v: "of_int (m * 2 ^ t) * pow2 k = x" by (simp only: xm)
  have "round64 x = pack64 (0 < x) k (m * 2 ^ t)"
    using x0 by (simp only: round64_def round_at_def k_def [symmetric] q if_False)
  also have "\<dots> = Finite x" using fit by (simp only: pack64_def v if_False if_cancel)
  finally show ?thesis by (simp only: x_def)
qed

lemma round64_int: "\<bar>m\<bar> < 2 ^ 53 \<Longrightarrow> round64 (of_int m) = Finite (of_int m)"
  using round64_dyadic [of m 0] by simp

text \<open>
  Rounding is to the nearest: the exponent brackets the number from above as well, the
  significand has 53 digits before the point, and the rounded number is at most half a unit
  in the last place away.
\<close>

lemma ilog2_upper: "0 < x \<Longrightarrow> x < pow2 (ilog2 x + 1)"
proof (cases "1 \<le> x")
  case True
  then have fl: "0 < \<lfloor>x\<rfloor>" by simp
  have b: "1 \<le> bitlen \<lfloor>x\<rfloor>" using bitlen_pos [OF fl] bitlen_nonneg [of "\<lfloor>x\<rfloor> div 2"] by simp
  have "\<lfloor>x\<rfloor> + 1 \<le> 2 ^ nat (bitlen \<lfloor>x\<rfloor>)" using bitlen_bounds [OF fl] by simp
  then have "(of_int (\<lfloor>x\<rfloor> + 1) :: rat) \<le> of_int (2 ^ nat (bitlen \<lfloor>x\<rfloor>))"
    by (simp only: of_int_le_iff)
  then have "(of_int \<lfloor>x\<rfloor> :: rat) + 1 \<le> 2 ^ nat (bitlen \<lfloor>x\<rfloor>)" by simp
  moreover have "x < of_int \<lfloor>x\<rfloor> + 1" by linarith
  ultimately have "x < 2 ^ nat (bitlen \<lfloor>x\<rfloor>)" by linarith
  moreover have "pow2 (ilog2 x + 1) = 2 ^ nat (bitlen \<lfloor>x\<rfloor>)"
    using True b by (simp add: ilog2_def pow2_def)
  ultimately show ?thesis by simp
next
  case False
  assume pos: "0 < x"
  define c where "c = \<lceil>1 / x\<rceil>"
  have "1 < 1 / x" using False pos by simp
  then have c2: "2 \<le> c" unfolding c_def by linarith
  then have c1: "0 < c - 1" by simp
  define b where "b = bitlen (c - 1)"
  have b1: "1 \<le> b" unfolding b_def
    using bitlen_pos [OF c1] bitlen_nonneg [of "(c - 1) div 2"] by simp
  have "2 ^ nat (b - 1) \<le> c - 1" using bitlen_bounds [OF c1] by (simp add: b_def)
  then have "(of_int (2 ^ nat (b - 1)) :: rat) \<le> of_int (c - 1)" by (simp only: of_int_le_iff)
  then have "(2 :: rat) ^ nat (b - 1) \<le> of_int c - 1" by simp
  moreover have "of_int c - 1 < 1 / x" unfolding c_def by linarith
  ultimately have "(2 :: rat) ^ nat (b - 1) < 1 / x" by linarith
  then have "x * 2 ^ nat (b - 1) < 1" using pos by (simp add: field_simps)
  then have lt: "x < 1 / 2 ^ nat (b - 1)" by (simp add: field_simps)
  have il: "ilog2 x = - b" using False by (simp add: ilog2_def b_def c_def)
  have "pow2 (ilog2 x + 1) = 1 / 2 ^ nat (b - 1)"
  proof (cases "b = 1")
    case True
    then show ?thesis by (simp add: il pow2_def)
  next
    case False
    with b1 have "1 < b" by simp
    then show ?thesis by (simp add: il pow2_def)
  qed
  with lt show ?thesis by simp
qed

lemma round_half_even_near: "\<bar>of_int (round_half_even m) - m\<bar> \<le> 1 / 2"
proof -
  have "of_int \<lfloor>m\<rfloor> \<le> m" "m < of_int \<lfloor>m\<rfloor> + 1" by linarith+
  then show ?thesis
    by (auto simp: round_half_even_def ties_even_def abs_le_iff)
qed

lemma pow2_pos: "0 < pow2 k"
  by (simp add: pow2_def)

lemma pow2_half: "pow2 (k - 1) = pow2 k / 2"
  by (simp add: pow2_powi power_int_diff)

text \<open>A number that rounds to a finite one is at most half a unit in the last place away.\<close>

lemma round64_nearest:
  assumes "round64 x = Finite y" and "x \<noteq> 0"
  shows "\<bar>y - x\<bar> \<le> pow2 (max (ilog2 \<bar>x\<bar> - 52) (- 1074) - 1)"
proof -
  define k where "k = max (ilog2 \<bar>x\<bar> - 52) (- 1074)"
  define n where "n = round_half_even (x / pow2 k)"
  have "pack64 (0 < x) k n = Finite y"
    using assms by (simp add: round64_def round_at_def k_def n_def)
  then have y: "y = of_int n * pow2 k"
    by (auto simp: pack64_def split: if_splits)
  have "\<bar>of_int n - x / pow2 k\<bar> \<le> 1 / 2" unfolding n_def by (rule round_half_even_near)
  then have "\<bar>of_int n - x / pow2 k\<bar> * pow2 k \<le> 1 / 2 * pow2 k"
    using pow2_pos [of k] by (simp only: mult_right_mono less_imp_le)
  moreover have "\<bar>of_int n - x / pow2 k\<bar> * pow2 k = \<bar>y - x\<bar>"
  proof -
    have "\<bar>of_int n - x / pow2 k\<bar> * pow2 k = \<bar>(of_int n - x / pow2 k) * pow2 k\<bar>"
      using pow2_pos [of k] by (simp add: abs_mult)
    also have "(of_int n - x / pow2 k) * pow2 k = y - x"
      using pow2_pos [of k] by (simp add: y field_simps)
    finally show ?thesis .
  qed
  ultimately show ?thesis by (simp add: pow2_half k_def)
qed

text \<open>The significand that is rounded has at most 53 digits before the point.\<close>

lemma significand_bound:
  assumes "x \<noteq> 0"
  shows "\<bar>x\<bar> / pow2 (max (ilog2 \<bar>x\<bar> - 52) (- 1074)) < 2 ^ 53"
proof -
  define e where "e = ilog2 \<bar>x\<bar>"
  define k where "k = max (e - 52) (- 1074)"
  have "\<bar>x\<bar> < pow2 (e + 1)" using ilog2_upper [of "\<bar>x\<bar>"] assms by (simp add: e_def)
  also have "pow2 (e + 1) \<le> pow2 (k + 53)"
    unfolding pow2_powi by (rule power_int_increasing) (simp_all add: k_def)
  also have "pow2 (k + 53) = pow2 k * 2 ^ 53"
    by (simp add: pow2_powi power_int_add)
  finally show ?thesis using pow2_pos [of k] by (simp add: field_simps k_def e_def)
qed

text \<open>Floors of numeral fractions, for running the model.\<close>

lemma floor_rat_numeral [simp]:
  "\<lfloor>(numeral a :: rat) / numeral b\<rfloor> = numeral a div numeral b"
  "\<lfloor>- ((numeral a :: rat) / numeral b)\<rfloor> = - numeral a div numeral b"
  "\<lfloor>(1 :: rat) / numeral b\<rfloor> = 1 div numeral b"
  "\<lfloor>- ((1 :: rat) / numeral b)\<rfloor> = - 1 div numeral b"
  using floor_divide_of_int_eq [of "numeral a" "numeral b", where ?'a = rat]
    floor_divide_of_int_eq [of "- numeral a" "numeral b", where ?'a = rat]
    floor_divide_of_int_eq [of "1" "numeral b", where ?'a = rat]
    floor_divide_of_int_eq [of "- 1" "numeral b", where ?'a = rat]
  by simp_all

lemmas f64_eval = round64_def round_at_def pack64_def ilog2_def pow2_def round_half_even_def
  ties_even_def bitlen_def bits_from.simps ceiling_def f64_const_def f64_of_int_def trunc_zero_def
  inf_of_sign_def fsub_def

lemma f64_of_int_exact: "\<bar>n\<bar> < 2 ^ 53 \<Longrightarrow> f64_of_int n = Finite (of_int n)"
  by (simp add: f64_of_int_def round64_int)

lemma f64_of_uint16: "f64_of_int (uint (w :: uint16)) = Finite (of_int (uint w))"
proof -
  have "uint w < 2 ^ 16" using uint_bounded [of w] by simp
  then have "\<bar>uint w\<bar> < 2 ^ 53" by simp
  then show ?thesis by (rule f64_of_int_exact)
qed

lemma f64_of_sint16: "f64_of_int (sint (w :: uint16)) = Finite (of_int (sint w))"
proof -
  have "- (2 ^ 15) \<le> sint w" "sint w < 2 ^ 15"
    using sint_ge [of w] sint_lt [of w] by simp_all
  then have "\<bar>sint w\<bar> < 2 ^ 53" by simp
  then show ?thesis by (rule f64_of_int_exact)
qed

lemma const_125: "f64_const (5 / 4) = Finite (5 / 4)"
  by (simp add: f64_eval)

lemma const_0: "f64_const 0 = Finite 0"
  by (simp add: f64_eval)

lemma bus_voltage_exact:
  "fmul (f64_of_int (uint (w :: uint16))) (f64_const (125 / 100)) =
     Finite (of_int (uint w) * (125 / 100))"
proof -
  have "uint w < 2 ^ 16" using uint_bounded [of w] by simp
  then have b: "\<bar>5 * uint w\<bar> < 2 ^ 53" by simp
  have e: "(of_int (uint w) :: rat) * (5 / 4) = of_int (5 * uint w) / 2 ^ 2" by simp
  have "fmul (f64_of_int (uint w)) (f64_const (125 / 100)) = round64 (of_int (uint w) * (5 / 4))"
    by (simp add: f64_of_uint16 const_125)
  also have "\<dots> = Finite (of_int (uint w) * (5 / 4))"
    unfolding e using b by (rule round64_dyadic) simp
  finally show ?thesis by simp
qed

section \<open>What the driver writes and reads\<close>

lemma Write_log: "conn_log (connection (snd (Write buf i))) = conn_log (connection i) @ [BusWrite buf]"
  by (simp add: Write_def split: prod.split)

lemma Write_loadSet: "loadSet (snd (Write buf i)) = loadSet i"
  by (simp add: Write_def split: prod.split)

lemma Read_loadSet: "loadSet (snd (Read n i)) = loadSet i"
  by (simp add: Read_def split: prod.split)

lemma readRegister16_loadSet: "loadSet (snd (readRegister16 reg i)) = loadSet i"
proof -
  have w: "loadSet i1 = loadSet i" if "Write [reg] i = (r, i1)" for r i1
    using Write_loadSet [of "[reg]" i] that by simp
  have r: "loadSet i2 = loadSet i1" if "Read 2 i1 = (r, i2)" for r i1 i2
    using Read_loadSet [of 2 i1] that by simp
  show ?thesis
    by (auto simp: readRegister16_def Let_def w split: prod.split option.split dest: r w)
qed

lemma bit_fold_or:
  "bit (fold (\<lambda>conf configuration. configuration OR conf) confs (a :: uint16)) n \<longleftrightarrow>
   bit a n \<or> (\<exists>conf\<in>set confs. bit conf n)"
  by (induction confs arbitrary: a) (auto simp: bit_or_iff)

text \<open>
  C4. Whatever the list of flags, the empty one too, \<^verbatim>\<open>Configure\<close> makes one call to the bus
  and no other: a write of three bytes, the address \<open>0x00\<close> of the configuration register, then
  the high and the low byte of the word that has a bit set exactly where one of the flags
  has.
\<close>

theorem Configure_writes_three_bytes:
  "\<exists>w :: uint16.
     conn_log (connection (snd (Configure confs i))) =
       conn_log (connection i) @ [BusWrite [0x00, ucast (drop_bit 8 w), ucast w]] \<and>
     (\<forall>n. bit w n = (\<exists>conf\<in>set confs. bit conf n))"
proof -
  define w where "w = fold (\<lambda>conf configuration. configuration OR conf) confs (0 :: uint16)"
  have "conn_log (connection (snd (Configure confs i))) =
      conn_log (connection (snd (Write ([CONFIG_REG] @ wordToByteArray w) i)))"
    by (simp add: Configure_def w_def Let_def split: prod.split option.split)
  then have "conn_log (connection (snd (Configure confs i))) =
      conn_log (connection i) @ [BusWrite [0x00, ucast (drop_bit 8 w), ucast w]]"
    by (simp add: Write_log CONFIG_REG_def wordToByteArray_def)
  moreover have "\<forall>n. bit w n = (\<exists>conf\<in>set confs. bit conf n)"
    by (simp add: w_def bit_fold_or)
  ultimately show ?thesis by blast
qed

theorem Configure_writes_three_bytes_witness:
  "(\<exists>w :: uint16.
      conn_log (connection (snd (Configure
        [INA226_AVERAGES_16, INA226_BUS_CONV_TIME_1100US, INA226_SHUNT_CONV_TIME_1100US,
         INA226_MODE_SHUNT_BUS_CONT] (sensor (\<lambda>r. 0) no_load)))) =
        conn_log (connection (sensor (\<lambda>r. 0) no_load)) @
          [BusWrite [0x00, ucast (drop_bit 8 w), ucast w]] \<and>
      (\<forall>n. bit w n = (\<exists>conf\<in>set [INA226_AVERAGES_16, INA226_BUS_CONV_TIME_1100US,
         INA226_SHUNT_CONV_TIME_1100US, INA226_MODE_SHUNT_BUS_CONT]. bit conf n))) \<and>
   conn_log (connection (snd (Configure
        [INA226_AVERAGES_16, INA226_BUS_CONV_TIME_1100US, INA226_SHUNT_CONV_TIME_1100US,
         INA226_MODE_SHUNT_BUS_CONT] (sensor (\<lambda>r. 0) no_load)))) =
     [BusWrite [0x00, 0x05, 0x27]] \<and>
   conn_log (connection (snd (Configure [] (sensor (\<lambda>r. 0) no_load)))) =
     [BusWrite [0x00, 0x00, 0x00]]"
  using Configure_writes_three_bytes [of
    "[INA226_AVERAGES_16, INA226_BUS_CONV_TIME_1100US, INA226_SHUNT_CONV_TIME_1100US,
      INA226_MODE_SHUNT_BUS_CONT]" "sensor (\<lambda>r. 0) no_load"]
  by (simp add: Configure_def Write_def sensor_def chip_connection_def chip_Write_def
      wordToByteArray_def CONFIG_REG_def INA226_AVERAGES_16_def INA226_BUS_CONV_TIME_1100US_def
      INA226_SHUNT_CONV_TIME_1100US_def INA226_MODE_SHUNT_BUS_CONT_def)

text \<open>
  C5, as amended. When the read of the bus-voltage register (address \<open>0x02\<close>) succeeds,
  \<^verbatim>\<open>ReadBusVoltage\<close> returns the register, read as an unsigned number, times 1.25, and the
  float64 product is the exact one: the number is the bus voltage in millivolts, not in
  volts. A register of 1000 gives 1250.
\<close>

theorem ReadBusVoltage_scales_register:
  assumes "readRegister16 BUSVOLTAGE_REG i = (Inr voltage, i')"
  shows "ReadBusVoltage i = (Inr (Finite (of_int (uint voltage) * (125 / 100))), i')"
  using assms unfolding ReadBusVoltage_def bus_voltage_exact by simp

lemmas chip_eval = sensor_def chip_connection_def chip_Write_def chip_Read_def readRegister16_def
  Write_def Read_def fill_buf_def wordToByteArray_def Let_def

lemma chip_read:
  "readRegister16 reg (sensor regs l) =
     (Inr (regs reg),
      \<lparr>connection = \<lparr>conn_Write = chip_Write, conn_Read = chip_Read,
         conn_state = \<lparr>pointer = reg, registers = regs\<rparr>, conn_log = [BusWrite [reg], BusRead 2]\<rparr>,
       loadSet = l\<rparr>)"
proof -
  have "push_bit 8 (ucast (ucast (drop_bit 8 w) :: byte)) OR ucast (ucast w :: byte) = w"
    for w :: uint16
    by (rule bit_word_eqI) (auto simp: bit_simps)
  then show ?thesis by (simp add: chip_eval)
qed

theorem ReadBusVoltage_scales_register_witness:
  "readRegister16 BUSVOLTAGE_REG (sensor ((\<lambda>r. 0)(0x02 := 1000)) no_load) =
     (Inr 1000, snd (readRegister16 BUSVOLTAGE_REG (sensor ((\<lambda>r. 0)(0x02 := 1000)) no_load))) \<and>
   fst (ReadBusVoltage (sensor ((\<lambda>r. 0)(0x02 := 1000)) no_load)) = Inr (Finite 1250)"
  using ReadBusVoltage_scales_register [of "sensor ((\<lambda>r. 0)(0x02 := 1000)) no_load" 1000
      "snd (readRegister16 BUSVOLTAGE_REG (sensor ((\<lambda>r. 0)(0x02 := 1000)) no_load))"]
  by (simp add: chip_read BUSVOLTAGE_REG_def)

text \<open>
  C5 as the claim has it fails: with 1000 in the register the number returned is 1250,
  and the voltage expressed in volts is 1.25.
\<close>

lemma bus_1000_volts: "spec_busVoltage_volts 1000 = Finite (5 / 4)"
  by (simp add: spec_busVoltage_volts_def f64_eval)

lemma bus_1000_code:
  "fst (ReadBusVoltage (sensor (one_register 0x02 1000) no_load)) = Inr (Finite 1250)"
  unfolding ReadBusVoltage_def bus_voltage_exact
  by (simp add: chip_read BUSVOLTAGE_REG_def one_register_def)

theorem ReadBusVoltage_volts_counterexample:
  "fst (ReadBusVoltage (sensor (one_register 0x02 1000) no_load)) \<noteq>
     Inr (spec_busVoltage_volts 1000)"
  by (simp add: bus_1000_code bus_1000_volts)

text \<open>
  C6, as amended. When the read of the shunt-voltage register (address \<open>0x01\<close>) succeeds,
  \<^verbatim>\<open>ReadShuntVoltage\<close> returns the float64 product of the register, read as a signed number
  in two's complement, and the constant 0.0025: the number is the shunt voltage in
  millivolts, not in volts. The register \<open>0xFF9C\<close>, which is \<open>-100\<close>, gives \<open>-0.25\<close>.
\<close>

theorem ReadShuntVoltage_signed_scaled:
  assumes "readRegister16 SHUNTVOLTAGE_REG i = (Inr voltage, i')"
  shows "ReadShuntVoltage i =
    (Inr (fmul (Finite (of_int (sint voltage))) (f64_const (25 / 10000))), i')"
  using assms by (simp add: ReadShuntVoltage_def f64_of_sint16)

lemma const_0025: "f64_const (1 / 400) = Finite (5764607523034235 / 2305843009213693952)"
  by (simp add: f64_eval)

theorem ReadShuntVoltage_signed_scaled_witness:
  "readRegister16 SHUNTVOLTAGE_REG (sensor ((\<lambda>r. 0)(0x01 := 0xFF9C)) no_load) =
     (Inr 0xFF9C, snd (readRegister16 SHUNTVOLTAGE_REG (sensor ((\<lambda>r. 0)(0x01 := 0xFF9C)) no_load))) \<and>
   sint (0xFF9C :: uint16) = - 100 \<and>
   fst (ReadShuntVoltage (sensor ((\<lambda>r. 0)(0x01 := 0xFF9C)) no_load)) = Inr (Finite (- (1 / 4)))"
  using ReadShuntVoltage_signed_scaled [of "sensor ((\<lambda>r. 0)(0x01 := 0xFF9C)) no_load" "0xFF9C"
      "snd (readRegister16 SHUNTVOLTAGE_REG (sensor ((\<lambda>r. 0)(0x01 := 0xFF9C)) no_load))"]
  by (simp add: chip_read SHUNTVOLTAGE_REG_def const_0025) (simp add: f64_eval)

text \<open>
  C6 as the claim has it fails: with \<open>-100\<close> in the register the number returned is
  \<open>-0.25\<close>, and the voltage expressed in volts is about \<open>-0.00025\<close>.
\<close>

lemma shunt_minus_100_volts:
  "spec_shuntVoltage_volts 0xFF9C = Finite (- (1152921504606847 / 4611686018427387904))"
  by (simp add: spec_shuntVoltage_volts_def f64_eval)

lemma shunt_minus_100_code:
  "fst (ReadShuntVoltage (sensor (one_register 0x01 0xFF9C) no_load)) = Inr (Finite (- (1 / 4)))"
  by (simp add: ReadShuntVoltage_def chip_read SHUNTVOLTAGE_REG_def one_register_def
      f64_of_sint16 const_0025) (simp add: f64_eval)

theorem ReadShuntVoltage_volts_counterexample:
  "fst (ReadShuntVoltage (sensor (one_register 0x01 0xFF9C) no_load)) \<noteq>
     Inr (spec_shuntVoltage_volts 0xFF9C)"
  by (simp add: shunt_minus_100_code shunt_minus_100_volts)

lemma readCalibrationRegister_eq: "readCalibrationRegister i = readRegister16 CALIBRATION_REG i"
  by (simp add: readCalibrationRegister_def split: prod.split sum.split)

lemma CurrentResolution_cases:
  "(f64_le (rShunt (loadSet i)) (Finite 0) \<longrightarrow>
      CurrentResolution i = (Inl (RShuntNotCorrect (rShunt (loadSet i))), i)) \<and>
   (\<not> f64_le (rShunt (loadSet i)) (Finite 0) \<longrightarrow>
      CurrentResolution i =
        (case readRegister16 CALIBRATION_REG i of
           (Inl err, i') \<Rightarrow> (Inl err, i')
         | (Inr calibration, i') \<Rightarrow>
             (Inr (fdiv (f64_const (512 / 100000))
                     (fmul (Finite (of_int (uint calibration))) (rShunt (loadSet i)))), i')))"
  by (simp add: CurrentResolution_def readCalibrationRegister_eq const_0 f64_of_uint16
      split: prod.split sum.split)

text \<open>
  C3. With a stored shunt resistance that is zero or less, \<^verbatim>\<open>CurrentResolution\<close> returns the
  error that carries this value and leaves the driver and the bus as they were: nothing is
  read and nothing divided. Otherwise it reads the calibration register (address \<open>0x05\<close>),
  hands on the error of a failed read, and returns the float64 quotient of 0.00512 by the
  product of the register and the shunt resistance.
\<close>

theorem CurrentResolution_validates_rShunt:
  "(f64_le (rShunt (loadSet i)) (Finite 0) \<longrightarrow>
      CurrentResolution i = (Inl (RShuntNotCorrect (rShunt (loadSet i))), i)) \<and>
   (\<not> f64_le (rShunt (loadSet i)) (Finite 0) \<longrightarrow>
      CurrentResolution i =
        (case readRegister16 CALIBRATION_REG i of
           (Inl err, i') \<Rightarrow> (Inl err, i')
         | (Inr calibration, i') \<Rightarrow>
             (Inr (fdiv (f64_const (512 / 100000))
                     (fmul (Finite (of_int (uint calibration))) (rShunt (loadSet i)))), i')))"
  by (rule CurrentResolution_cases)

lemma const_01: "f64_const (1 / 10) = Finite (3602879701896397 / 36028797018963968)"
  by (simp add: f64_eval)

lemma const_00512: "f64_const (512 / 100000) = Finite (5902958103587057 / 1152921504606846976)"
  by (simp add: f64_eval)

theorem CurrentResolution_validates_rShunt_witness:
  "f64_le (rShunt (loadSet (sensor ((\<lambda>r. 0)(0x05 := 512)) (load (Finite 0))))) (Finite 0) \<and>
   CurrentResolution (sensor ((\<lambda>r. 0)(0x05 := 512)) (load (Finite 0))) =
     (Inl (RShuntNotCorrect (Finite 0)), sensor ((\<lambda>r. 0)(0x05 := 512)) (load (Finite 0))) \<and>
   \<not> f64_le (rShunt (loadSet (sensor ((\<lambda>r. 0)(0x05 := 512)) (load (f64_const (1 / 10))))))
      (Finite 0) \<and>
   fst (CurrentResolution (sensor ((\<lambda>r. 0)(0x05 := 512)) (load (f64_const (1 / 10))))) =
     Inr (Finite (7378697629483821 / 73786976294838206464))"
  using CurrentResolution_validates_rShunt [of "sensor ((\<lambda>r. 0)(0x05 := 512)) (load (Finite 0))"]
    CurrentResolution_validates_rShunt [of "sensor ((\<lambda>r. 0)(0x05 := 512)) (load (f64_const (1 / 10)))"]
  apply (simp add: chip_read CALIBRATION_REG_def load_def no_load_def const_01 const_00512)
  apply (simp add: sensor_def f64_eval)
  done

lemma Calibrate_eq:
  "Calibrate p r m i =
     (map_option IO (fst (Write (CALIBRATION_REG # wordToByteArray (spec_calibrationValue p r m))
        (i\<lparr>loadSet := (loadSet i)\<lparr>rShunt := r, iMax := m\<rparr>\<rparr>))),
      snd (Write (CALIBRATION_REG # wordToByteArray (spec_calibrationValue p r m))
        (i\<lparr>loadSet := (loadSet i)\<lparr>rShunt := r, iMax := m\<rparr>\<rparr>)))"
  by (simp add: Calibrate_def spec_calibrationValue_def spec_quotient_def spec_currentLSB_def
      Let_def split: prod.split option.split)

lemma Calibrate_log:
  "conn_log (connection (snd (Calibrate p r m i))) =
     conn_log (connection i) @
       [BusWrite [0x05, ucast (drop_bit 8 (spec_calibrationValue p r m)),
          ucast (spec_calibrationValue p r m)]]"
  by (simp add: Calibrate_eq Write_log CALIBRATION_REG_def wordToByteArray_def)

lemma uint16_of_f64_floor:
  "0 \<le> q \<Longrightarrow> q < 65536 \<Longrightarrow> uint16_of_f64 p (Finite q) = word_of_int \<lfloor>q\<rfloor>"
proof -
  assume q: "0 \<le> q" "q < 65536"
  then have "\<lfloor>q\<rfloor> < 65536" by linarith
  moreover have "0 \<le> \<lfloor>q\<rfloor>" using q by simp
  ultimately show ?thesis using q by (simp add: trunc_zero_def)
qed

text \<open>
  C1. Whatever the shunt resistance and the maximum current, \<^verbatim>\<open>Calibrate\<close> makes one call to
  the bus: a write of three bytes, the address \<open>0x05\<close> of the calibration register, then the
  high and the low byte of the calibration value as the spec computes it; and where the
  quotient is a number from 0 up to 65536, that value is its floor.
\<close>

theorem Calibrate_writes_calibration_register:
  "conn_log (connection (snd (Calibrate p shuntResistanceOhms maxCurrentAmps i))) =
     conn_log (connection i) @
       [BusWrite [0x05,
          ucast (drop_bit 8 (spec_calibrationValue p shuntResistanceOhms maxCurrentAmps)),
          ucast (spec_calibrationValue p shuntResistanceOhms maxCurrentAmps)]] \<and>
   (\<forall>q. spec_quotient p shuntResistanceOhms maxCurrentAmps = Finite q \<longrightarrow> 0 \<le> q \<longrightarrow> q < 65536 \<longrightarrow>
      spec_calibrationValue p shuntResistanceOhms maxCurrentAmps = word_of_int \<lfloor>q\<rfloor>)"
  using uint16_of_f64_floor [of _ p]
  by (simp add: Calibrate_log spec_calibrationValue_def del: uint16_of_f64.simps)

lemmas platform_eval = reference_platform_def ilog10_def dec_digits.simps powi_rat_def

lemma sample_quotient:
  "spec_quotient reference_platform (f64_const (1 / 10)) (Finite 1) = Finite 1280"
  by (simp add: spec_quotient_def spec_currentLSB_def platform_eval f64_eval)

theorem Calibrate_writes_calibration_register_witness:
  "spec_quotient reference_platform (f64_const (1 / 10)) (Finite 1) = Finite 1280 \<and>
   spec_calibrationValue reference_platform (f64_const (1 / 10)) (Finite 1) = 0x0500 \<and>
   conn_log (connection (snd (Calibrate reference_platform (f64_const (1 / 10)) (Finite 1)
      (sensor (\<lambda>r. 0) no_load)))) = [BusWrite [0x05, 0x05, 0x00]]"
  using Calibrate_writes_calibration_register [of reference_platform "f64_const (1 / 10)" "Finite 1"
      "sensor (\<lambda>r. 0) no_load"]
  by (simp add: sample_quotient) (simp add: sensor_def chip_connection_def)

lemma readRegister16_error: "fst (readRegister16 reg i) = Inl e \<Longrightarrow> \<exists>x. e = IO x"
  by (auto simp: readRegister16_def Let_def split: prod.splits option.splits)

lemma f64_positive_not_le: "f64_positive x \<Longrightarrow> \<not> f64_le x (Finite 0)"
  by (cases x) (simp_all add: f64_positive_def)

lemma Calibrate_loadSet:
  "loadSet (snd (Calibrate p r m i)) = (loadSet i)\<lparr>rShunt := r, iMax := m\<rparr>"
  by (simp add: Calibrate_eq Write_loadSet)

lemma Calibrate_error:
  assumes "fst (Calibrate p r m i) = Some e"
  shows "\<exists>buf x. e = IO x \<and>
    fst (conn_Write (connection i) buf (conn_state (connection i))) = Some x"
proof -
  define buf where "buf = CALIBRATION_REG # wordToByteArray (spec_calibrationValue p r m)"
  define i1 where "i1 = i\<lparr>loadSet := (loadSet i)\<lparr>rShunt := r, iMax := m\<rparr>\<rparr>"
  have w: "fst (Write buf i1) = fst (conn_Write (connection i) buf (conn_state (connection i)))"
    by (simp add: Write_def i1_def split: prod.split)
  from assms have "map_option IO (fst (Write buf i1)) = Some e"
    by (simp add: Calibrate_eq buf_def i1_def)
  then obtain x where "fst (Write buf i1) = Some x" "e = IO x" by auto
  with w show ?thesis by auto
qed

text \<open>
  C10. \<^verbatim>\<open>Calibrate\<close> stores the shunt resistance and the maximum current before it writes
  to the bus. When it returns an error, this is the error of the bus write, the two values
  are stored all the same, and with a positive shunt resistance a \<^verbatim>\<open>CurrentResolution\<close> that
  follows does not answer with the validation error: it goes on to read the calibration
  register.
\<close>

theorem Calibrate_not_atomic:
  assumes "fst (Calibrate p rShuntValue iMaxValue i) = Some e"
  shows "loadSet (snd (Calibrate p rShuntValue iMaxValue i)) =
           (loadSet i)\<lparr>rShunt := rShuntValue, iMax := iMaxValue\<rparr> \<and>
         (\<exists>buf x. e = IO x \<and>
            fst (conn_Write (connection i) buf (conn_state (connection i))) = Some x) \<and>
         (f64_positive rShuntValue \<longrightarrow>
            (\<forall>v. fst (CurrentResolution (snd (Calibrate p rShuntValue iMaxValue i))) \<noteq>
                  Inl (RShuntNotCorrect v)) \<and>
            CurrentResolution (snd (Calibrate p rShuntValue iMaxValue i)) =
              (case readRegister16 CALIBRATION_REG (snd (Calibrate p rShuntValue iMaxValue i)) of
                 (Inl err, i') \<Rightarrow> (Inl err, i')
               | (Inr calibration, i') \<Rightarrow>
                   (Inr (fdiv (f64_const (512 / 100000))
                           (fmul (Finite (of_int (uint calibration))) rShuntValue)), i')))"
proof (intro conjI impI)
  show "loadSet (snd (Calibrate p rShuntValue iMaxValue i)) =
      (loadSet i)\<lparr>rShunt := rShuntValue, iMax := iMaxValue\<rparr>"
    by (rule Calibrate_loadSet)
  show "\<exists>buf x. e = IO x \<and>
      fst (conn_Write (connection i) buf (conn_state (connection i))) = Some x"
    using assms by (rule Calibrate_error)
next
  assume pos: "f64_positive rShuntValue"
  define i2 where "i2 = snd (Calibrate p rShuntValue iMaxValue i)"
  have r: "rShunt (loadSet i2) = rShuntValue" by (simp add: i2_def Calibrate_loadSet)
  have nle: "\<not> f64_le (rShunt (loadSet i2)) (Finite 0)"
    using pos by (simp add: r f64_positive_not_le)
  have eq: "CurrentResolution i2 =
      (case readRegister16 CALIBRATION_REG i2 of
         (Inl err, i') \<Rightarrow> (Inl err, i')
       | (Inr calibration, i') \<Rightarrow>
           (Inr (fdiv (f64_const (512 / 100000))
                   (fmul (Finite (of_int (uint calibration))) rShuntValue)), i'))"
    using CurrentResolution_cases [of i2, unfolded r] nle [unfolded r] by simp
  then show "CurrentResolution (snd (Calibrate p rShuntValue iMaxValue i)) =
      (case readRegister16 CALIBRATION_REG (snd (Calibrate p rShuntValue iMaxValue i)) of
         (Inl err, i') \<Rightarrow> (Inl err, i')
       | (Inr calibration, i') \<Rightarrow>
           (Inr (fdiv (f64_const (512 / 100000))
                   (fmul (Finite (of_int (uint calibration))) rShuntValue)), i'))"
    by (simp only: i2_def)
  show "\<forall>v. fst (CurrentResolution (snd (Calibrate p rShuntValue iMaxValue i))) \<noteq>
      Inl (RShuntNotCorrect v)"
  proof
    fix v
    show "fst (CurrentResolution (snd (Calibrate p rShuntValue iMaxValue i))) \<noteq>
      Inl (RShuntNotCorrect v)"
      using readRegister16_error [of CALIBRATION_REG i2 "RShuntNotCorrect v"]
      unfolding i2_def [symmetric] eq
      by (auto split: prod.splits sum.splits)
  qed
qed

theorem Calibrate_not_atomic_witness:
  "fst (Calibrate reference_platform (f64_const (1 / 10)) (Finite 1) dead_sensor) =
     Some (IO (ExtError 5)) \<and>
   loadSet (snd (Calibrate reference_platform (f64_const (1 / 10)) (Finite 1) dead_sensor)) =
     no_load\<lparr>rShunt := f64_const (1 / 10), iMax := Finite 1\<rparr> \<and>
   f64_positive (f64_const (1 / 10)) \<and>
   fst (CurrentResolution
     (snd (Calibrate reference_platform (f64_const (1 / 10)) (Finite 1) dead_sensor))) =
     Inl (IO (ExtError 5))"
proof -
  have e: "fst (Calibrate reference_platform (f64_const (1 / 10)) (Finite 1) dead_sensor) =
     Some (IO (ExtError 5))"
    by (simp add: Calibrate_def Write_def dead_sensor_def dead_bus_def Let_def)
  have p: "f64_positive (f64_const (1 / 10))"
    by (simp add: const_01 f64_positive_def)
  have "fst (readRegister16 CALIBRATION_REG
      (snd (Calibrate reference_platform (f64_const (1 / 10)) (Finite 1) dead_sensor))) =
    Inl (IO (ExtError 5))"
    by (simp add: Calibrate_def readRegister16_def Write_def dead_sensor_def dead_bus_def Let_def)
  then obtain i3 where r: "readRegister16 CALIBRATION_REG
      (snd (Calibrate reference_platform (f64_const (1 / 10)) (Finite 1) dead_sensor)) =
    (Inl (IO (ExtError 5)), i3)"
    by (cases "readRegister16 CALIBRATION_REG
      (snd (Calibrate reference_platform (f64_const (1 / 10)) (Finite 1) dead_sensor))") auto
  have l: "loadSet dead_sensor = no_load" by (simp add: dead_sensor_def)
  show ?thesis
    using Calibrate_not_atomic [OF e] p e by (simp add: r l)
qed

section \<open>What the adaptor does to the kernel\<close>

lemma GetConnection_rejects:
  "bus < 0 \<or> 2 < bus \<Longrightarrow>
   GetConnection k address bus (c, s) = (Returned (None, Some (BusOutOfRange bus)), c, s)"
  by (auto simp: GetConnection_def)

text \<open>
  C2. A bus number below 0 or above 2 is turned down with the out-of-range error before
  the array is touched. The number 2 passes that check, and the array of two slots is then
  indexed at 2: \<^verbatim>\<open>GetConnection\<close> panics and returns nothing.
\<close>

theorem GetConnection_bus_2_panics:
  "GetConnection k address 2 (c, s) = (Panicked (IndexOutOfRange 2 2), c, s)"
  by (simp add: GetConnection_def index2_def)

lemma sysfs_log: "os_log (snd (sysfs k call s)) = os_log s @ [call]"
  by (simp add: sysfs_def split: prod.split)

lemma sysfs_fst: "fst (sysfs k call s) = fst (sysfs_op k call (os_state s))"
  by (simp add: sysfs_def split: prod.split)

lemma sysfs_state: "os_state (snd (sysfs k call s)) = snd (sysfs_op k call (os_state s))"
  by (simp add: sysfs_def split: prod.split)

lemma attempt_all_append:
  "attempt_all k (xs @ ys) es = attempt_all k ys (attempt_all k xs es)"
  by (induction xs arbitrary: es) (auto split: prod.split option.split)

lemma Finalize_digitalPins_attempt:
  "Finalize_digitalPins k ps es = attempt_all k (concat (map (release_digital \<circ> snd) ps)) es"
proof (induction k ps es rule: Finalize_digitalPins.induct)
  case (3 k key n rest err s)
  then show ?case
    by (auto simp: release_digital_def multierror_Append_def split: prod.split option.split)
qed (simp_all add: release_digital_def)

lemma Finalize_pwmPins_attempt:
  "Finalize_pwmPins k ps es = attempt_all k (concat (map (release_pwm \<circ> snd) ps)) es"
proof (induction k ps es rule: Finalize_pwmPins.induct)
  case (3 k key n rest err s)
  then show ?case
    by (auto simp: release_pwm_def multierror_Append_def split: prod.split option.split)
qed (simp_all add: release_pwm_def)

lemma Finalize_i2cBuses_attempt:
  "Finalize_i2cBuses k bs es = attempt_all k (concat (map release_bus bs)) es"
proof (induction k bs es rule: Finalize_i2cBuses.induct)
  case (3 k bus rest err s)
  then show ?case
    by (auto simp: release_bus_def multierror_Append_def split: prod.split option.split)
qed (simp_all add: release_bus_def)

lemma attempt_all_log: "os_log (snd (attempt_all k calls es)) = os_log (snd es) @ calls"
proof (induction calls arbitrary: es)
  case Nil
  then show ?case by simp
next
  case (Cons call calls)
  obtain r s' where c: "sysfs k call (snd es) = (r, s')" by (cases "sysfs k call (snd es)")
  have l: "os_log s' = os_log (snd es) @ [call]" using sysfs_log [of k call "snd es"] c by simp
  show ?case using Cons [of "(fst es, s')"] Cons [of "(fst es @ [the r], s')"] c l
    by (cases r) auto
qed

lemma attempt_all_errors:
  "fst (attempt_all k calls es) = fst es @ failures k calls (os_state (snd es))"
proof (induction calls arbitrary: es)
  case Nil
  then show ?case by simp
next
  case (Cons call calls)
  obtain r s' where c: "sysfs k call (snd es) = (r, s')" by (cases "sysfs k call (snd es)")
  have f: "sysfs_op k call (os_state (snd es)) = (r, os_state s')"
    using sysfs_fst [of k call "snd es"] sysfs_state [of k call "snd es"] c
    by (cases "sysfs_op k call (os_state (snd es))") simp
  show ?case using Cons [of "(fst es, s')"] Cons [of "(fst es @ [the r], s')"] c f
    by (cases r) auto
qed

lemma Finalize_attempt:
  "Finalize k (c, s) =
     (as_error (fst (attempt_all k (release_calls c) ([], s))), c,
      snd (attempt_all k (release_calls c) ([], s)))"
  by (simp add: Finalize_def Finalize_digitalPins_attempt Finalize_pwmPins_attempt
      Finalize_i2cBuses_attempt release_calls_def attempt_all_append split: prod.split)

text \<open>
  C8. \<^verbatim>\<open>Finalize\<close> makes every release call of every handle the adaptor holds, in the order
  of the digital pins, the PWM pins and the buses, whichever of the calls fail; it returns no
  error when none fails and otherwise the one error that lists the error of every call that
  failed; the adaptor keeps its handles.
\<close>

theorem Finalize_releases_every_handle:
  "os_log (snd (snd (Finalize k (c, s)))) = os_log s @ release_calls c \<and>
   fst (Finalize k (c, s)) = as_error (failures k (release_calls c) (os_state s)) \<and>
   fst (snd (Finalize k (c, s))) = c"
  by (simp add: Finalize_attempt attempt_all_log attempt_all_errors)

lemmas adaptor_eval = board_in_use_def DigitalPin_def PWMPin_def translatePin_def pins_def
  NewAdaptor_def boot_def kernel_failing_def sysfs_def at_key_def AList.update.simps Let_def

lemma board_203:
  "board_in_use [DigitalPin_Unexport 203] =
     (\<lparr>board = ''nanopi-neo'', pinmap = [],
       digitalPins = [(203, Some (NewDigitalPin 203)), (64, Some (NewDigitalPin 64))],
       pwmPins = [(0, Some (NewPWMPin 0))], i2cBuses = (None, None)\<rparr>,
      \<lparr>os_state = (\<lambda>n. 0)(0 := 10000000),
       os_log = [DigitalPin_Export 203, DigitalPin_Direction 203 ''out'',
                 DigitalPin_Export 64, DigitalPin_Direction 64 ''in'',
                 PWMPin_Export 0, PWMPin_Enable 0 False, PWMPin_InvertPolarity 0 False,
                 PWMPin_Enable 0 True, PWMPin_SetPeriod 0 10000000]\<rparr>)"
  by (simp add: adaptor_eval)

theorem Finalize_releases_every_handle_witness:
  "digitalPins (fst (board_in_use [DigitalPin_Unexport 203])) =
     [(203, Some (NewDigitalPin 203)), (64, Some (NewDigitalPin 64))] \<and>
   pwmPins (fst (board_in_use [DigitalPin_Unexport 203])) = [(0, Some (NewPWMPin 0))] \<and>
   release_calls (fst (board_in_use [DigitalPin_Unexport 203])) =
     [DigitalPin_Unexport 203, DigitalPin_Unexport 64, PWMPin_Enable 0 False, PWMPin_Unexport 0] \<and>
   os_log (snd (snd (Finalize (kernel_failing [DigitalPin_Unexport 203])
       (board_in_use [DigitalPin_Unexport 203])))) =
     os_log (snd (board_in_use [DigitalPin_Unexport 203])) @
       [DigitalPin_Unexport 203, DigitalPin_Unexport 64, PWMPin_Enable 0 False, PWMPin_Unexport 0] \<and>
   fst (Finalize (kernel_failing [DigitalPin_Unexport 203])
       (board_in_use [DigitalPin_Unexport 203])) = Some (MultiError [ExtError 13])"
  using Finalize_releases_every_handle [of "kernel_failing [DigitalPin_Unexport 203]"
      "fst (board_in_use [DigitalPin_Unexport 203])" "snd (board_in_use [DigitalPin_Unexport 203])"]
  by (simp add: board_203 release_calls_def release_digital_def release_pwm_def release_bus_def
      as_error_def kernel_failing_def)

lemma until_error_setup:
  "until_error k (channel_setup n) s =
   (case sysfs k (PWMPin_Export n) s of
      (Some err, s1) \<Rightarrow> (Some err, s1)
    | (None, s1) \<Rightarrow>
   (case sysfs k (PWMPin_Enable n False) s1 of
      (Some err, s2) \<Rightarrow> (Some err, s2)
    | (None, s2) \<Rightarrow>
   (case sysfs k (PWMPin_InvertPolarity n False) s2 of
      (Some err, s3) \<Rightarrow> (Some err, s3)
    | (None, s3) \<Rightarrow>
   (case sysfs k (PWMPin_Enable n True) s3 of
      (Some err, s4) \<Rightarrow> (Some err, s4)
    | (None, s4) \<Rightarrow>
   (case sysfs k (PWMPin_SetPeriod n 10000000) s4 of
      (Some err, s5) \<Rightarrow> (Some err, s5)
    | (None, s5) \<Rightarrow> (None, s5))))))"
  by (simp add: channel_setup_def split: prod.split option.split)

lemma PWMPin_nil_pinmap:
  "pinmap c = [] \<Longrightarrow> PWMPin k name (c, s) = channel_handle k 0 (c, s)"
  by (simp add: PWMPin_def channel_handle_def until_error_setup split: prod.split option.split)

lemma channel_handle_error:
  "fst (channel_handle k n cs) = Inl e \<Longrightarrow> \<exists>x. e = IO x"
  by (auto simp: channel_handle_def split: prod.splits option.splits)

text \<open>
  C9. With the \<open>pinmap\<close> of the adaptor nil, as \<^verbatim>\<open>NewAdaptor\<close> leaves it, \<^verbatim>\<open>PWMPin\<close> does for
  every pin name what it takes to get the handle of PWM channel 0: the handle kept from
  before, or the five calls that set the channel up and the handle kept after them. It never
  returns the error "Not a PWM pin", though every entry of the static table has \<open>-1\<close> for its
  PWM channel.
\<close>

theorem PWMPin_never_not_a_pwm_pin:
  assumes "pinmap c = []"
  shows "PWMPin k name (c, s) = channel_handle k 0 (c, s) \<and>
         fst (PWMPin k name (c, s)) \<noteq> Inl NotAPWMPin \<and>
         pinmap NewAdaptor = [] \<and>
         map (pwmPin \<circ> snd) pins = replicate (length pins) (- 1)"
proof (intro conjI)
  show eq: "PWMPin k name (c, s) = channel_handle k 0 (c, s)"
    using assms by (rule PWMPin_nil_pinmap)
  show "fst (PWMPin k name (c, s)) \<noteq> Inl NotAPWMPin"
    using channel_handle_error [of k 0 "(c, s)" NotAPWMPin] unfolding eq by auto
  show "pinmap NewAdaptor = []" by (simp add: NewAdaptor_def)
  show "map (pwmPin \<circ> snd) pins = replicate (length pins) (- 1)"
    by (simp add: pins_def)
qed

theorem PWMPin_never_not_a_pwm_pin_witness:
  "pinmap NewAdaptor = [] \<and>
   map_of pins ''GPIOA6'' = Some \<lparr>pin = 6, pwmPin = - 1\<rparr> \<and>
   PWMPin (kernel_failing []) ''GPIOA6'' (NewAdaptor, boot) =
     (Inr (NewPWMPin 0), NewAdaptor\<lparr>pwmPins := [(0, Some (NewPWMPin 0))]\<rparr>,
      \<lparr>os_state = (\<lambda>n. 0)(0 := 10000000),
       os_log = [PWMPin_Export 0, PWMPin_Enable 0 False, PWMPin_InvertPolarity 0 False,
                 PWMPin_Enable 0 True, PWMPin_SetPeriod 0 10000000]\<rparr>) \<and>
   PWMPin (kernel_failing [PWMPin_Export 0]) ''GPIOA6'' (NewAdaptor, boot) =
     (Inl (IO (ExtError 13)), NewAdaptor, \<lparr>os_state = (\<lambda>n. 0), os_log = [PWMPin_Export 0]\<rparr>)"
proof -
  have n: "pinmap NewAdaptor = []" by (simp add: NewAdaptor_def)
  show ?thesis
    using PWMPin_never_not_a_pwm_pin [OF n, of "kernel_failing []" "''GPIOA6''" boot]
      PWMPin_never_not_a_pwm_pin [OF n, of "kernel_failing [PWMPin_Export 0]" "''GPIOA6''" boot]
    by (simp add: channel_handle_def channel_setup_def NewAdaptor_def boot_def kernel_failing_def
        sysfs_def at_key_def pins_def)
qed

lemma PWMPin_pinmap: "pinmap (fst (snd (PWMPin k name (c, s)))) = pinmap c"
  by (simp add: PWMPin_def Let_def split: prod.split option.split)

lemma DigitalPin_pinmap: "pinmap (fst (snd (DigitalPin k name dir (c, s)))) = pinmap c"
  by (simp add: DigitalPin_def split: prod.split option.split sum.split sysfs_DigitalPin.split)

lemma GetConnection_pinmap: "pinmap (fst (snd (GetConnection k address bus (c, s)))) = pinmap c"
  by (simp add: GetConnection_def split: prod.split option.split sum.split)

lemma ServoWrite_pinmap: "pinmap (fst (snd (ServoWrite k p name angle (c, s)))) = pinmap c"
  using PWMPin_pinmap [of k name c s]
  by (auto simp: ServoWrite_def split: prod.split option.split sum.split sysfs_PWMPin.split)

section \<open>The pulse width of a servo\<close>

text \<open>
  The float64 computation of the pulse width is run for each angle from 0 to 180: cut to a
  whole number, it is the exact linear map every time.
\<close>

lemma const_int: "\<bar>m\<bar> < 2 ^ 53 \<Longrightarrow> f64_const (of_int m) = Finite (of_int m)"
  by (simp add: f64_const_def round64_int)

lemma servo_consts:
  "f64_const 0 = Finite 0" "f64_const 180 = Finite 180"
  "minDuty = Finite 500000" "maxDuty = Finite 2000000"
  using const_int [of 0] const_int [of 180] const_int [of 500000] const_int [of 2000000]
  by (simp_all add: minDuty_def maxDuty_def)

lemma round64_numeral_small:
  "round64 180 = Finite 180" "round64 1500000 = Finite 1500000"
  using round64_int [of 180] round64_int [of 1500000] by simp_all

lemma servo_duty_width:
  "servo_duty p angle = uint32_of_f64 p (servo_width (unat angle))"
proof -
  have "uint angle < 2 ^ 8" using uint_bounded [of angle] by simp
  then have b: "\<bar>uint angle\<bar> < 2 ^ 53" by simp
  have a: "f64_of_int (uint angle) = Finite (unsigned angle)"
    using f64_of_int_exact [OF b] by simp
  have r: "round64 (unsigned angle) = Finite (unsigned angle)"
    using round64_int [OF b] by simp
  show ?thesis
    by (simp add: servo_duty_def ToScale_def FromScale_def servo_consts a fsub_def r
        round64_numeral_small servo_width_def)
qed

lemma servo_width_0_20:
  assumes "0 \<le> n" and "n \<le> 20"
  shows "uint32_of_f64 p (servo_width n) = of_nat (500000 + n * 1500000 div 180)"
proof -
  have "list_all (\<lambda>n. uint32_of_f64 p (servo_width n) = of_nat (500000 + n * 1500000 div 180))
      [0, 1, 2, 3, 4, 5, 6, 7, 8, 9, 10, 11, 12, 13, 14, 15, 16, 17, 18, 19, 20]"
    by (simp add: servo_width_def f64_eval)
  moreover have "n \<in> set [0, 1, 2, 3, 4, 5, 6, 7, 8, 9, 10, 11, 12, 13, 14, 15, 16, 17, 18, 19, 20]"
    using assms by (simp, arith)
  ultimately show ?thesis by (simp only: list_all_iff)
qed

lemma servo_width_21_40:
  assumes "21 \<le> n" and "n \<le> 40"
  shows "uint32_of_f64 p (servo_width n) = of_nat (500000 + n * 1500000 div 180)"
proof -
  have "list_all (\<lambda>n. uint32_of_f64 p (servo_width n) = of_nat (500000 + n * 1500000 div 180))
      [21, 22, 23, 24, 25, 26, 27, 28, 29, 30, 31, 32, 33, 34, 35, 36, 37, 38, 39, 40]"
    by (simp add: servo_width_def f64_eval)
  moreover have "n \<in> set [21, 22, 23, 24, 25, 26, 27, 28, 29, 30, 31, 32, 33, 34, 35, 36, 37, 38, 39, 40]"
    using assms by (simp, arith)
  ultimately show ?thesis by (simp only: list_all_iff)
qed

lemma servo_width_41_60:
  assumes "41 \<le> n" and "n \<le> 60"
  shows "uint32_of_f64 p (servo_width n) = of_nat (500000 + n * 1500000 div 180)"
proof -
  have "list_all (\<lambda>n. uint32_of_f64 p (servo_width n) = of_nat (500000 + n * 1500000 div 180))
      [41, 42, 43, 44, 45, 46, 47, 48, 49, 50, 51, 52, 53, 54, 55, 56, 57, 58, 59, 60]"
    by (simp add: servo_width_def f64_eval)
  moreover have "n \<in> set [41, 42, 43, 44, 45, 46, 47, 48, 49, 50, 51, 52, 53, 54, 55, 56, 57, 58, 59, 60]"
    using assms by (simp, arith)
  ultimately show ?thesis by (simp only: list_all_iff)
qed

lemma servo_width_61_80:
  assumes "61 \<le> n" and "n \<le> 80"
  shows "uint32_of_f64 p (servo_width n) = of_nat (500000 + n * 1500000 div 180)"
proof -
  have "list_all (\<lambda>n. uint32_of_f64 p (servo_width n) = of_nat (500000 + n * 1500000 div 180))
      [61, 62, 63, 64, 65, 66, 67, 68, 69, 70, 71, 72, 73, 74, 75, 76, 77, 78, 79, 80]"
    by (simp add: servo_width_def f64_eval)
  moreover have "n \<in> set [61, 62, 63, 64, 65, 66, 67, 68, 69, 70, 71, 72, 73, 74, 75, 76, 77, 78, 79, 80]"
    using assms by (simp, arith)
  ultimately show ?thesis by (simp only: list_all_iff)
qed

lemma servo_width_81_100:
  assumes "81 \<le> n" and "n \<le> 100"
  shows "uint32_of_f64 p (servo_width n) = of_nat (500000 + n * 1500000 div 180)"
proof -
  have "list_all (\<lambda>n. uint32_of_f64 p (servo_width n) = of_nat (500000 + n * 1500000 div 180))
      [81, 82, 83, 84, 85, 86, 87, 88, 89, 90, 91, 92, 93, 94, 95, 96, 97, 98, 99, 100]"
    by (simp add: servo_width_def f64_eval)
  moreover have "n \<in> set [81, 82, 83, 84, 85, 86, 87, 88, 89, 90, 91, 92, 93, 94, 95, 96, 97, 98, 99, 100]"
    using assms by (simp, arith)
  ultimately show ?thesis by (simp only: list_all_iff)
qed

lemma servo_width_101_120:
  assumes "101 \<le> n" and "n \<le> 120"
  shows "uint32_of_f64 p (servo_width n) = of_nat (500000 + n * 1500000 div 180)"
proof -
  have "list_all (\<lambda>n. uint32_of_f64 p (servo_width n) = of_nat (500000 + n * 1500000 div 180))
      [101, 102, 103, 104, 105, 106, 107, 108, 109, 110, 111, 112, 113, 114, 115, 116, 117, 118, 119, 120]"
    by (simp add: servo_width_def f64_eval)
  moreover have "n \<in> set [101, 102, 103, 104, 105, 106, 107, 108, 109, 110, 111, 112, 113, 114, 115, 116, 117, 118, 119, 120]"
    using assms by (simp, arith)
  ultimately show ?thesis by (simp only: list_all_iff)
qed

lemma servo_width_121_140:
  assumes "121 \<le> n" and "n \<le> 140"
  shows "uint32_of_f64 p (servo_width n) = of_nat (500000 + n * 1500000 div 180)"
proof -
  have "list_all (\<lambda>n. uint32_of_f64 p (servo_width n) = of_nat (500000 + n * 1500000 div 180))
      [121, 122, 123, 124, 125, 126, 127, 128, 129, 130, 131, 132, 133, 134, 135, 136, 137, 138, 139, 140]"
    by (simp add: servo_width_def f64_eval)
  moreover have "n \<in> set [121, 122, 123, 124, 125, 126, 127, 128, 129, 130, 131, 132, 133, 134, 135, 136, 137, 138, 139, 140]"
    using assms by (simp, arith)
  ultimately show ?thesis by (simp only: list_all_iff)
qed

lemma servo_width_141_160:
  assumes "141 \<le> n" and "n \<le> 160"
  shows "uint32_of_f64 p (servo_width n) = of_nat (500000 + n * 1500000 div 180)"
proof -
  have "list_all (\<lambda>n. uint32_of_f64 p (servo_width n) = of_nat (500000 + n * 1500000 div 180))
      [141, 142, 143, 144, 145, 146, 147, 148, 149, 150, 151, 152, 153, 154, 155, 156, 157, 158, 159, 160]"
    by (simp add: servo_width_def f64_eval)
  moreover have "n \<in> set [141, 142, 143, 144, 145, 146, 147, 148, 149, 150, 151, 152, 153, 154, 155, 156, 157, 158, 159, 160]"
    using assms by (simp, arith)
  ultimately show ?thesis by (simp only: list_all_iff)
qed

lemma servo_width_161_180:
  assumes "161 \<le> n" and "n \<le> 180"
  shows "uint32_of_f64 p (servo_width n) = of_nat (500000 + n * 1500000 div 180)"
proof -
  have "list_all (\<lambda>n. uint32_of_f64 p (servo_width n) = of_nat (500000 + n * 1500000 div 180))
      [161, 162, 163, 164, 165, 166, 167, 168, 169, 170, 171, 172, 173, 174, 175, 176, 177, 178, 179, 180]"
    by (simp add: servo_width_def f64_eval)
  moreover have "n \<in> set [161, 162, 163, 164, 165, 166, 167, 168, 169, 170, 171, 172, 173, 174, 175, 176, 177, 178, 179, 180]"
    using assms by (simp, arith)
  ultimately show ?thesis by (simp only: list_all_iff)
qed

lemma servo_width_linear:
  assumes "n \<le> 180"
  shows "uint32_of_f64 p (servo_width n) = of_nat (500000 + n * 1500000 div 180)"
proof -
  consider "0 \<le> n \<and> n \<le> 20" | "21 \<le> n \<and> n \<le> 40" | "41 \<le> n \<and> n \<le> 60" | "61 \<le> n \<and> n \<le> 80" | "81 \<le> n \<and> n \<le> 100" | "101 \<le> n \<and> n \<le> 120" | "121 \<le> n \<and> n \<le> 140" | "141 \<le> n \<and> n \<le> 160" | "161 \<le> n \<and> n \<le> 180"
    using assms by linarith
  then show ?thesis
    by cases (simp_all only: servo_width_0_20 servo_width_21_40 servo_width_41_60 servo_width_61_80 servo_width_81_100 servo_width_101_120 servo_width_121_140 servo_width_141_160 servo_width_161_180)
qed

text \<open>
  C7. When \<^verbatim>\<open>PWMPin\<close> has answered with a handle, \<^verbatim>\<open>ServoWrite\<close> with an angle of at most
  180 makes one more call: it sets the duty cycle of that handle to 500000 ns plus the
  angle's share of 1500000 ns, cut to a whole number. The value depends on the angle alone,
  not on the state of the kernel, where the period of the channel lives. An angle of 90
  gives 1250000 ns.
\<close>

theorem ServoWrite_sets_linear_duty:
  assumes "PWMPin k name cs = (Inr (NewPWMPin n), c, s)" and "unat angle \<le> 180"
  shows "ServoWrite k p name angle cs =
    (map_option IO (fst (sysfs k
        (PWMPin_SetDutyCycle n (of_nat (500000 + unat angle * 1500000 div 180))) s)),
     c,
     snd (sysfs k (PWMPin_SetDutyCycle n (of_nat (500000 + unat angle * 1500000 div 180))) s))"
proof -
  have "servo_duty p angle = of_nat (500000 + unat angle * 1500000 div 180)"
    using servo_width_linear [OF assms(2)] by (simp only: servo_duty_width)
  then show ?thesis
    using assms(1) by (simp add: ServoWrite_def split: prod.split)
qed

theorem ServoWrite_sets_linear_duty_witness:
  "PWMPin (kernel_failing []) ''GPIOA6'' (NewAdaptor, boot) =
     (Inr (NewPWMPin 0), NewAdaptor\<lparr>pwmPins := [(0, Some (NewPWMPin 0))]\<rparr>,
      \<lparr>os_state = (\<lambda>n. 0)(0 := 10000000),
       os_log = [PWMPin_Export 0, PWMPin_Enable 0 False, PWMPin_InvertPolarity 0 False,
                 PWMPin_Enable 0 True, PWMPin_SetPeriod 0 10000000]\<rparr>) \<and>
   unat (90 :: byte) \<le> 180 \<and>
   ServoWrite (kernel_failing []) reference_platform ''GPIOA6'' 90 (NewAdaptor, boot) =
     (None, NewAdaptor\<lparr>pwmPins := [(0, Some (NewPWMPin 0))]\<rparr>,
      \<lparr>os_state = (\<lambda>n. 0)(0 := 10000000),
       os_log = [PWMPin_Export 0, PWMPin_Enable 0 False, PWMPin_InvertPolarity 0 False,
                 PWMPin_Enable 0 True, PWMPin_SetPeriod 0 10000000,
                 PWMPin_SetDutyCycle 0 1250000]\<rparr>)"
proof -
  have h: "PWMPin (kernel_failing []) ''GPIOA6'' (NewAdaptor, boot) =
     (Inr (NewPWMPin 0), NewAdaptor\<lparr>pwmPins := [(0, Some (NewPWMPin 0))]\<rparr>,
      \<lparr>os_state = (\<lambda>n. 0)(0 := 10000000),
       os_log = [PWMPin_Export 0, PWMPin_Enable 0 False, PWMPin_InvertPolarity 0 False,
                 PWMPin_Enable 0 True, PWMPin_SetPeriod 0 10000000]\<rparr>)"
    by (simp add: PWMPin_def NewAdaptor_def boot_def kernel_failing_def sysfs_def at_key_def)
  have a: "unat (90 :: byte) \<le> 180" by simp
  have d: "sysfs (kernel_failing []) (PWMPin_SetDutyCycle 0 1250000)
      \<lparr>os_state = (\<lambda>n. 0)(0 := 10000000),
       os_log = [PWMPin_Export 0, PWMPin_Enable 0 False, PWMPin_InvertPolarity 0 False,
                 PWMPin_Enable 0 True, PWMPin_SetPeriod 0 10000000]\<rparr> =
    (None, \<lparr>os_state = (\<lambda>n. 0)(0 := 10000000),
       os_log = [PWMPin_Export 0, PWMPin_Enable 0 False, PWMPin_InvertPolarity 0 False,
                 PWMPin_Enable 0 True, PWMPin_SetPeriod 0 10000000,
                 PWMPin_SetDutyCycle 0 1250000]\<rparr>)"
    by (simp add: sysfs_def kernel_failing_def)
  show ?thesis
    using ServoWrite_sets_linear_duty [OF h a, of reference_platform] h a
    by (simp add: d)
qed

end
